theory Spec2Isabelle
  imports Main "HOL-Library.Word"
begin

section \<open>Python values, bytes and exceptions\<close>

text \<open>
  A Python \<open>bytes\<close> object is a list of 8-bit words. A Python \<open>str\<close> is a list of code
  points (natural numbers), so that \<open>s.encode('latin-1')\<close> can fail on a code point above
  255 as it does in Python. The \<open>data\<close> argument of a data entry is dynamically typed:
  the model covers the two kinds the code handles, integers and strings.
\<close>

type_synonym pybytes = "8 word list"
type_synonym pystr = "nat list"

datatype pyval = PyInt int | PyStr pystr

text \<open>
  The exceptions the code can raise. \<open>UnicodeEncodeError\<close> is a subclass of
  \<open>ValueError\<close> in Python; \<open>StructError\<close> is \<open>struct.error\<close>, which is not.
  \<open>TruncatedInput\<close> is the failure of the framing parser as the specification names it.
\<close>

datatype error =
    ValueError
  | UnicodeEncodeError
  | TypeError
  | AttributeError
  | StructError
  | TruncatedInput
  | InvalidContractException

fun is_ValueError :: "error \<Rightarrow> bool" where
  "is_ValueError ValueError = True"
| "is_ValueError UnicodeEncodeError = True"
| "is_ValueError _ = False"

text \<open>Sequencing of computations that may raise: the first exception wins.\<close>

fun bindE :: "error + 'a \<Rightarrow> ('a \<Rightarrow> error + 'b) \<Rightarrow> error + 'b" where
  "bindE (Inl e) f = Inl e"
| "bindE (Inr x) f = f x"

text \<open>Python's \<open>xs[i:j]\<close> for non-negative \<open>i\<close> and \<open>j\<close>: it never raises.\<close>

definition slice :: "'a list \<Rightarrow> nat \<Rightarrow> nat \<Rightarrow> 'a list" where
  "slice xs i j = take (j - i) (drop i xs)"

subsection \<open>struct.pack and struct.unpack, big-endian unsigned\<close>

fun be_bytes :: "nat \<Rightarrow> nat \<Rightarrow> pybytes" where
  "be_bytes 0 n = []"
| "be_bytes (Suc k) n = be_bytes k (n div 256) @ [of_nat (n mod 256)]"

definition be_value :: "pybytes \<Rightarrow> nat" where
  "be_value bs = foldl (\<lambda>acc b. acc * 256 + unat b) 0 bs"

text \<open>
  \<open>struct.pack\<close> with the formats \<open>">B"\<close>, \<open>">H"\<close>, \<open>">I"\<close>, \<open>">Q"\<close> (1, 2, 4 and 8
  bytes): \<open>struct.error\<close> when the argument is not an integer or is out of range.
\<close>

definition struct_pack :: "nat \<Rightarrow> pyval \<Rightarrow> error + pybytes" where
  "struct_pack k v =
     (case v of
        PyInt i \<Rightarrow> if 0 \<le> i \<and> i < 256 ^ k then Inr (be_bytes k (nat i)) else Inl StructError
      | PyStr s \<Rightarrow> Inl StructError)"

text \<open>\<open>struct.unpack\<close>: \<open>struct.error\<close> unless the buffer has exactly the format's size.\<close>

definition struct_unpack :: "nat \<Rightarrow> pybytes \<Rightarrow> error + nat" where
  "struct_unpack k bs = (if length bs = k then Inr (be_value bs) else Inl StructError)"

abbreviation pack_H :: "pyval \<Rightarrow> error + pybytes" where "pack_H \<equiv> struct_pack 2"
abbreviation pack_I :: "pyval \<Rightarrow> error + pybytes" where "pack_I \<equiv> struct_pack 4"
abbreviation pack_Q :: "pyval \<Rightarrow> error + pybytes" where "pack_Q \<equiv> struct_pack 8"
abbreviation unpack_H :: "pybytes \<Rightarrow> error + nat" where "unpack_H \<equiv> struct_unpack 2"
abbreviation unpack_I :: "pybytes \<Rightarrow> error + nat" where "unpack_I \<equiv> struct_unpack 4"
abbreviation unpack_Q :: "pybytes \<Rightarrow> error + nat" where "unpack_Q \<equiv> struct_unpack 8"

text \<open>\<open>len(x)\<close> as a Python integer.\<close>

abbreviation py_len :: "'a list \<Rightarrow> pyval" where
  "py_len xs \<equiv> PyInt (int (length xs))"

subsection \<open>String helpers (src/contract.py)\<close>

text \<open>
  \<open>bytes2str = lambda b: ''.join(map(chr, b))\<close> and
  \<open>str2bytes = lambda s: s.encode('latin-1')\<close>. An integer has no \<open>encode\<close> attribute.
\<close>

definition bytes2str :: "pybytes \<Rightarrow> pystr" where
  "bytes2str b = map unat b"

definition str2bytes :: "pyval \<Rightarrow> error + pybytes" where
  "str2bytes v =
     (case v of
        PyInt i \<Rightarrow> Inl AttributeError
      | PyStr s \<Rightarrow> if \<forall>c \<in> set s. c < 256 then Inr (map of_nat s) else Inl UnicodeEncodeError)"

subsection \<open>serialize_array (src/contract.py)\<close>

text \<open>
  \<open>serialize_array(b)\<close> prefixes \<open>struct.pack(">H", len(b))\<close>. It branches on
  \<open>type(b) is list\<close>: for a list of byte strings the prefix is the number of elements and
  the elements are joined; for a byte string the prefix is its length.
\<close>

definition serialize_array :: "pybytes \<Rightarrow> error + pybytes" where
  "serialize_array b = bindE (pack_H (py_len b)) (\<lambda>p. Inr (p @ b))"

definition serialize_array_list :: "pybytes list \<Rightarrow> error + pybytes" where
  "serialize_array_list b = bindE (pack_H (py_len b)) (\<lambda>p. Inr (p @ concat b))"

subsection \<open>The base58 package\<close>

text \<open>
  \<open>base58.b58decode\<close> and \<open>base58.b58encode\<close> belong to an external package. The model
  is the Bitcoin alphabet with leading \<open>'1'\<close> characters standing for leading zero bytes;
  a character outside the alphabet is a \<open>ValueError\<close>, a non-string argument a
  \<open>TypeError\<close>.
\<close>

definition b58_alphabet :: "nat list" where
  "b58_alphabet = map of_char ''123456789ABCDEFGHJKLMNPQRSTUVWXYZabcdefghijkmnopqrstuvwxyz''"

fun index_of :: "nat \<Rightarrow> nat list \<Rightarrow> nat" where
  "index_of c [] = 0"
| "index_of c (x # xs) = (if c = x then 0 else Suc (index_of c xs))"

definition b58decode_int :: "pystr \<Rightarrow> nat" where
  "b58decode_int s = foldl (\<lambda>acc c. acc * 58 + index_of c b58_alphabet) 0 s"

text \<open>The loops \<open>while acc > 0: acc, mod = divmod(acc, base)\<close>, most significant digit first.\<close>

function digits256 :: "nat \<Rightarrow> nat list" where
  "digits256 n = (if n = 0 then [] else digits256 (n div 256) @ [n mod 256])"
  by pat_completeness auto
termination
  by (relation "measure id") auto

function digits58 :: "nat \<Rightarrow> nat list" where
  "digits58 n = (if n = 0 then [] else digits58 (n div 58) @ [n mod 58])"
  by pat_completeness auto
termination
  by (relation "measure id") auto

declare digits256.simps [simp del] digits58.simps [simp del]

definition b58decode :: "pyval \<Rightarrow> error + pybytes" where
  "b58decode v =
     (case v of
        PyInt i \<Rightarrow> Inl TypeError
      | PyStr s \<Rightarrow>
          if \<forall>c \<in> set s. c \<in> set b58_alphabet then
            (let pad = length (takeWhile (\<lambda>c. c = 49) s);
                 acc = b58decode_int (dropWhile (\<lambda>c. c = 49) s)
             in Inr (replicate pad 0 @ map of_nat (digits256 acc)))
          else Inl ValueError)"

definition b58encode :: "pybytes \<Rightarrow> pybytes" where
  "b58encode v =
     (let pad = length (takeWhile (\<lambda>b. b = 0) v);
          acc = be_value (dropWhile (\<lambda>b. b = 0) v)
      in replicate pad 49 @ map (\<lambda>d. of_nat (b58_alphabet ! d)) (digits58 acc))"

section \<open>The type tags (class Type)\<close>

definition public_key :: pybytes where "public_key = [1]"
definition key_length :: nat where "key_length = 32"
definition address :: pybytes where "address = [2]"
definition address_length :: nat where "address_length = 26"
definition amount :: pybytes where "amount = [3]"
definition amount_length :: nat where "amount_length = 8"
definition int32 :: pybytes where "int32 = [4]"
definition int32_length :: nat where "int32_length = 4"
definition short_text :: pybytes where "short_text = [5]"
definition max_short_text_size :: nat where "max_short_text_size = 140"
definition contract_account :: pybytes where "contract_account = [6]"
definition contract_account_length :: nat where "contract_account_length = 26"
definition account :: pybytes where "account = [7]"
definition token_id :: pybytes where "token_id = [8]"
definition token_address_length :: nat where "token_address_length = 30"
definition timestamp :: pybytes where "timestamp = [9]"
definition boolean :: pybytes where "boolean = [10]"
definition balance :: pybytes where "balance = [11]"

section \<open>Data entries\<close>

text \<open>
  An object of class \<open>DataEntry\<close> has the attributes \<open>data\<close>, \<open>data_type\<close> (the name
  of the kind), \<open>data_bytes\<close> (the payload) and \<open>bytes\<close> (tag and payload).
\<close>

record DataEntry =
  data :: pyval
  data_type :: string
  data_bytes :: pybytes
  bytes :: pybytes

text \<open>
  \<open>check_data_type(data, data_type)\<close>. The conjunctions are Python's short-circuit
  \<open>and\<close>: the right operand is evaluated only when the left one is true.
\<close>

definition check_data_type :: "pyval \<Rightarrow> pybytes \<Rightarrow> error + bool" where
  "check_data_type d dt =
     (if dt = public_key then
        bindE (b58decode d) (\<lambda>data_bytes. Inr (length data_bytes = key_length))
      else if dt = address then
        bindE (b58decode d) (\<lambda>data_bytes. Inr (length data_bytes = address_length))
      else if dt = amount then
        bindE (pack_Q d) (\<lambda>data_bytes.
          if length data_bytes = amount_length
          then bindE (unpack_Q data_bytes) (\<lambda>v. Inr (v > 0))
          else Inr False)
      else if dt = int32 then
        bindE (pack_I d) (\<lambda>data_bytes.
          if length data_bytes = int32_length
          then bindE (unpack_I data_bytes) (\<lambda>v. Inr (v > 0))
          else Inr False)
      else if dt = short_text then
        bindE (str2bytes d) (\<lambda>s. bindE (serialize_array s) (\<lambda>data_bytes.
          bindE (unpack_H (slice data_bytes 0 2)) (\<lambda>n.
            Inr (n + 2 = length data_bytes
                 \<and> length data_bytes \<le> max_short_text_size + 2))))
      else Inr True)"

text \<open>
  The branches of \<open>DataEntry.__init__\<close> that set \<open>self.data_bytes\<close> and
  \<open>self.data_type\<close>; \<open>None\<close> when no branch matches, so that both attributes stay
  unset.
\<close>

definition init_branches :: "pyval \<Rightarrow> pybytes \<Rightarrow> error + (pybytes \<times> string) option" where
  "init_branches d dt =
     (if dt = public_key then bindE (b58decode d) (\<lambda>b. Inr (Some (b, ''public_key'')))
      else if dt = address then bindE (b58decode d) (\<lambda>b. Inr (Some (b, ''address'')))
      else if dt = amount then bindE (pack_Q d) (\<lambda>b. Inr (Some (b, ''amount'')))
      else if dt = int32 then bindE (pack_I d) (\<lambda>b. Inr (Some (b, ''int32'')))
      else if dt = short_text then
        bindE (str2bytes d) (\<lambda>s. bindE (serialize_array s) (\<lambda>b. Inr (Some (b, ''short_text''))))
      else if dt = contract_account then
        bindE (b58decode d) (\<lambda>b. Inr (Some (b, ''contract_account'')))
      else if dt = token_id then bindE (b58decode d) (\<lambda>b. Inr (Some (b, ''token_id'')))
      else if dt = timestamp then bindE (pack_Q d) (\<lambda>b. Inr (Some (b, ''timestamp'')))
      else Inr None)"

text \<open>
  \<open>DataEntry(data, data_type)\<close>: a failed check raises \<open>ValueError\<close>; the last
  statement \<open>self.bytes = data_type + self.data_bytes\<close> raises \<open>AttributeError\<close> when
  no branch has set \<open>self.data_bytes\<close>.
\<close>

definition DataEntry_init :: "pyval \<Rightarrow> pybytes \<Rightarrow> error + DataEntry" where
  "DataEntry_init d dt =
     bindE (check_data_type d dt) (\<lambda>ok.
       if \<not> ok then Inl ValueError
       else bindE (init_branches d dt) (\<lambda>r.
         case r of
           None \<Rightarrow> Inl AttributeError
         | Some (b, name) \<Rightarrow>
             Inr \<lparr>data = d, data_type = name, data_bytes = b, bytes = dt @ b\<rparr>))"

text \<open>
  \<open>data_entry_from_bytes\<close>: an empty argument raises \<open>ValueError\<close>; a first byte that
  no branch handles falls off the end of the function, which returns \<open>None\<close>.
\<close>

definition data_entry_from_bytes :: "pybytes \<Rightarrow> error + DataEntry option" where
  "data_entry_from_bytes b =
     (if length b = 0 then Inl ValueError
      else if slice b 0 1 = public_key then
        map_sum id Some (DataEntry_init (PyStr (bytes2str (b58encode (drop 1 b)))) (slice b 0 1))
      else if slice b 0 1 = address then
        map_sum id Some (DataEntry_init (PyStr (bytes2str (b58encode (drop 1 b)))) (slice b 0 1))
      else if slice b 0 1 = amount then
        bindE (unpack_Q (drop 1 b)) (\<lambda>v.
          map_sum id Some (DataEntry_init (PyInt (int v)) (slice b 0 1)))
      else if slice b 0 1 = int32 then
        bindE (unpack_I (drop 1 b)) (\<lambda>v.
          map_sum id Some (DataEntry_init (PyInt (int v)) (slice b 0 1)))
      else if slice b 0 1 = short_text then
        map_sum id Some (DataEntry_init (PyStr (bytes2str (drop 3 b))) (slice b 0 1))
      else if slice b 0 1 = contract_account then
        map_sum id Some (DataEntry_init (PyStr (bytes2str (b58encode (drop 1 b)))) (slice b 0 1))
      else if slice b 0 1 = token_id then
        map_sum id Some (DataEntry_init (PyStr (bytes2str (b58encode (drop 1 b)))) (slice b 0 1))
      else if slice b 0 1 = timestamp then
        bindE (unpack_Q (drop 1 b)) (\<lambda>v.
          map_sum id Some (DataEntry_init (PyInt (int v)) (slice b 0 1)))
      else Inr None)"

text \<open>
  \<open>parse_data_entry_array_size(bytes_object, start_position)\<close> returns the pair of the
  decoded entry and the position after it, or \<open>None\<close> when no branch matches the byte
  at \<open>start_position\<close> (also when \<open>start_position\<close> is past the end).
  \<open>fixed_entry\<close> is the tuple that each fixed-length branch returns,
  \<open>(data_entry_from_bytes(bytes_object[start:start + n + 1]), start + n + 1)\<close>.
\<close>

definition fixed_entry ::
  "pybytes \<Rightarrow> nat \<Rightarrow> nat \<Rightarrow> error + (DataEntry option \<times> nat) option" where
  "fixed_entry b start n =
     bindE (data_entry_from_bytes (slice b start (start + n + 1))) (\<lambda>e.
       Inr (Some (e, start + n + 1)))"

definition parse_data_entry_array_size ::
  "pybytes \<Rightarrow> nat \<Rightarrow> error + (DataEntry option \<times> nat) option" where
  "parse_data_entry_array_size b start =
     (if slice b start (start + 1) = public_key then fixed_entry b start key_length
      else if slice b start (start + 1) = address then fixed_entry b start address_length
      else if slice b start (start + 1) = amount then fixed_entry b start amount_length
      else if slice b start (start + 1) = int32 then fixed_entry b start int32_length
      else if slice b start (start + 1) = short_text then
        bindE (unpack_H (slice b (start + 1) (start + 3))) (\<lambda>n.
          bindE (data_entry_from_bytes (slice b start (start + n + 3))) (\<lambda>e.
            bindE (unpack_H (slice b (start + 1) (start + 3))) (\<lambda>m.
              Inr (Some (e, start + m + 3)))))
      else if slice b start (start + 1) = contract_account then
        fixed_entry b start address_length
      else if slice b start (start + 1) = token_id then fixed_entry b start token_address_length
      else if slice b start (start + 1) = timestamp then fixed_entry b start amount_length
      else Inr None)"

text \<open>
  The loop of \<open>data_entries_from_bytes\<close>: the list unpacking
  \<open>[array_info, pos_drift] = parse_data_entry_array_size(...)\<close> raises \<open>TypeError\<close>
  when the right-hand side is \<open>None\<close>. The loop returns the entries and the final
  value of \<open>pos_drift\<close>.
\<close>

fun entries_loop ::
  "pybytes \<Rightarrow> nat \<Rightarrow> nat \<Rightarrow> DataEntry option list
     \<Rightarrow> error + (DataEntry option list \<times> nat)" where
  "entries_loop b 0 pos_drift all_data = Inr (all_data, pos_drift)"
| "entries_loop b (Suc n) pos_drift all_data =
     (case parse_data_entry_array_size b pos_drift of
        Inl e \<Rightarrow> Inl e
      | Inr None \<Rightarrow> Inl TypeError
      | Inr (Some (array_info, pos')) \<Rightarrow> entries_loop b n pos' (all_data @ [array_info]))"

definition data_entries_from_bytes :: "pybytes \<Rightarrow> error + DataEntry option list" where
  "data_entries_from_bytes b =
     bindE (unpack_H (slice b 0 2)) (\<lambda>len. map_sum id fst (entries_loop b len 2 []))"

text \<open>
  \<open>serialize_data(data_entry_list)\<close> for a list argument; an argument that is not a
  list is first wrapped into a one-element list.
\<close>

definition serialize_data :: "DataEntry list \<Rightarrow> error + pybytes" where
  "serialize_data data_entry_list = serialize_array_list (map bytes data_entry_list)"

definition serialize_data_single :: "DataEntry \<Rightarrow> error + pybytes" where
  "serialize_data_single d = serialize_data [d]"

section \<open>Array framing (class Deser)\<close>

text \<open>
  Modelled from the spec: the module \<open>vsyspy.deser\<close> is missing.
  \<open>Deser.serialize_array\<close> is the specification's \<open>frameBlob\<close> (a 2-byte big-endian
  length, then the bytes); the function \<open>serialize_array\<close> of src/contract.py above
  computes exactly this, and also the count-and-join of a list that \<open>serialize_data\<close>
  passes, so it stands for \<open>Deser.serialize_array\<close> throughout. The other three operations
  follow the specification.
\<close>

text \<open>
  Modelled from the spec: \<open>Deser.serialize_arrays\<close> is missing; the specification's
  \<open>frameList\<close> (section 4.2) prefixes a 2-byte big-endian element count and concatenates
  the elements raw, each element being a self-delimiting frame produced by the caller.
\<close>

definition serialize_arrays :: "pybytes list \<Rightarrow> error + pybytes" where
  "serialize_arrays bs = bindE (pack_H (py_len bs)) (\<lambda>p. Inr (p @ concat bs))"

text \<open>
  Modelled from the spec: \<open>Deser.parse_array_size\<close> is missing; the specification's
  \<open>parseBlob(bytes, offset)\<close> reads the 2-byte length, returns the following slice and the
  offset just past it, and fails with \<open>TruncatedInput\<close> if the declared length would
  read past the end of the buffer.
\<close>

definition parse_array_size :: "pybytes \<Rightarrow> nat \<Rightarrow> error + (pybytes \<times> nat)" where
  "parse_array_size b start =
     (if length b < start + 2 then Inl TruncatedInput
      else let n = be_value (slice b start (start + 2)) in
        if length b < start + 2 + n then Inl TruncatedInput
        else Inr (slice b (start + 2) (start + 2 + n), start + 2 + n))"

text \<open>
  Modelled from the spec: \<open>Deser.parse_arrays\<close> is missing; the specification's
  \<open>parseList\<close> reads the 2-byte count, then repeatedly advances by consuming each element
  as itself a framed blob whose own length prefix determines how far to advance. The slice
  returned for an element is the element as it stands in the list frame, its length prefix
  included: the elements of a list frame are self-delimiting frames (sections 3 and 4.2).
  \<open>TruncatedInput\<close> if a count or a length would read past the end of the buffer.
\<close>

fun parse_arrays_loop ::
  "pybytes \<Rightarrow> nat \<Rightarrow> nat \<Rightarrow> pybytes list \<Rightarrow> error + (pybytes list \<times> nat)" where
  "parse_arrays_loop b 0 pos all_info = Inr (all_info, pos)"
| "parse_arrays_loop b (Suc k) pos all_info =
     (if length b < pos + 2 then Inl TruncatedInput
      else let n = be_value (slice b pos (pos + 2)) in
        if length b < pos + 2 + n then Inl TruncatedInput
        else parse_arrays_loop b k (pos + 2 + n) (all_info @ [slice b pos (pos + 2 + n)]))"

definition parse_arrays :: "pybytes \<Rightarrow> error + pybytes list" where
  "parse_arrays b =
     (if length b < 2 then Inl TruncatedInput
      else map_sum id fst (parse_arrays_loop b (be_value (slice b 0 2)) 2 []))"

section \<open>The contract envelope (class Contract)\<close>

text \<open>
  Modelled from the spec: \<open>ContractMeta\<close> (module \<open>vsyspy.setting\<close>) is missing; the
  specification gives a language code of 4 bytes and a language version of 4 bytes (u32).
\<close>

definition language_code_byte_length :: nat where "language_code_byte_length = 4"
definition language_version_byte_length :: nat where "language_version_byte_length = 4"

record Contract =
  language_code :: pybytes
  language_version :: pybytes
  trigger :: "pybytes list"
  descriptor :: "pybytes list"
  state_variable :: "pybytes list"
  state_map :: "pybytes list"
  textual :: "pybytes list"

text \<open>
  The property \<open>Contract.bytes\<close>. The test is
  \<open>self.language_version == struct.pack(">I", 1)\<close>; each branch concatenates the header
  and the framed sections in the order of the source.
\<close>

definition Contract_bytes :: "Contract \<Rightarrow> error + pybytes" where
  "Contract_bytes c =
     (if Inr (language_version c) = pack_I (PyInt 1) then
        bindE (bindE (serialize_arrays (trigger c)) serialize_array) (\<lambda>t.
        bindE (bindE (serialize_arrays (descriptor c)) serialize_array) (\<lambda>d.
        bindE (bindE (serialize_arrays (state_variable c)) serialize_array) (\<lambda>sv.
        bindE (serialize_arrays (textual c)) (\<lambda>tx.
          Inr (language_code c @ language_version c @ t @ d @ sv @ tx)))))
      else
        bindE (bindE (serialize_arrays (trigger c)) serialize_array) (\<lambda>t.
        bindE (bindE (serialize_arrays (descriptor c)) serialize_array) (\<lambda>d.
        bindE (bindE (serialize_arrays (state_variable c)) serialize_array) (\<lambda>sv.
        bindE (bindE (serialize_arrays (state_map c)) serialize_array) (\<lambda>sm.
        bindE (serialize_arrays (textual c)) (\<lambda>tx.
          Inr (language_code c @ language_version c @ t @ d @ sv @ sm @ tx)))))))"

text \<open>
  The body of the \<open>try\<close> block of \<open>Contract.from_bytes\<close>: the seven attributes are
  assigned in turn. For language version 1 the state-map slot reuses the state-variable
  frame and its end, and the state map is \<open>parse_arrays(struct.pack(">H", 0))\<close>.
\<close>

definition from_bytes_body :: "pybytes \<Rightarrow> error + Contract" where
  "from_bytes_body contract_bytes =
     (let code = slice contract_bytes 0 language_code_byte_length;
          version = slice contract_bytes language_code_byte_length
                      (language_code_byte_length + language_version_byte_length)
      in
        bindE (parse_array_size contract_bytes
                 (language_code_byte_length + language_version_byte_length))
          (\<lambda>(trigger_bytes, trigger_end).
        bindE (parse_arrays trigger_bytes) (\<lambda>trig.
        bindE (parse_array_size contract_bytes trigger_end)
          (\<lambda>(descriptor_bytes, descriptor_end).
        bindE (parse_arrays descriptor_bytes) (\<lambda>desc.
        bindE (parse_array_size contract_bytes descriptor_end)
          (\<lambda>(state_variable_bytes, state_variable_end).
        bindE (parse_arrays state_variable_bytes) (\<lambda>svar.
        bindE (if Inr version = pack_I (PyInt 1)
               then Inr (state_variable_bytes, state_variable_end)
               else parse_array_size contract_bytes state_variable_end)
          (\<lambda>(state_map_bytes, state_map_end).
        bindE (if Inr version = pack_I (PyInt 1)
               then bindE (pack_H (PyInt 0)) parse_arrays
               else parse_arrays state_map_bytes) (\<lambda>smap.
        bindE (parse_arrays (slice contract_bytes state_map_end (length contract_bytes)))
          (\<lambda>texts.
          Inr \<lparr>language_code = code, language_version = version, trigger = trig,
                descriptor = desc, state_variable = svar, state_map = smap,
                textual = texts\<rparr>))))))))))"

text \<open>
  \<open>Contract.from_bytes\<close>. The handler is \<open>except ValueError or TypeError:\<close>; the
  expression \<open>ValueError or TypeError\<close> evaluates to \<open>ValueError\<close>, so the handler
  catches \<open>ValueError\<close> and its subclasses only and raises
  \<open>InvalidContractException\<close> for them. Every other exception propagates.
\<close>

definition from_bytes :: "pybytes \<Rightarrow> error + Contract" where
  "from_bytes contract_bytes =
     (case from_bytes_body contract_bytes of
        Inl e \<Rightarrow> if is_ValueError e then Inl InvalidContractException else Inl e
      | Inr c \<Rightarrow> Inr c)"

section \<open>The opcode-list frame\<close>

text \<open>
  \<open>list_opc_gen(ids, index_input)\<close>. \<open>opc_frames\<close> is the concatenation of
  \<open>struct.pack(">H", len(x[0] + x[1])) + x[0] + x[1]\<close> over \<open>zip(ids, index_input)\<close>;
  \<open>opc_sizes\<close> is the list of \<open>len(x[0] + x[1]) + 2\<close> that the source sums.
\<close>

fun opc_frames :: "(pybytes \<times> pybytes) list \<Rightarrow> error + pybytes" where
  "opc_frames [] = Inr []"
| "opc_frames (x # xs) =
     bindE (pack_H (py_len (fst x @ snd x))) (\<lambda>p.
       bindE (opc_frames xs) (\<lambda>r. Inr (p @ fst x @ snd x @ r)))"

definition opc_sizes :: "(pybytes \<times> pybytes) list \<Rightarrow> nat list" where
  "opc_sizes zs = map (\<lambda>x. length (fst x @ snd x) + 2) zs"

definition list_opc_gen :: "pybytes list \<Rightarrow> pybytes list \<Rightarrow> error + pybytes" where
  "list_opc_gen ids index_input =
     bindE (pack_H (PyInt (int (sum_list (opc_sizes (zip ids index_input)) + 2)))) (\<lambda>len.
     bindE (pack_H (py_len ids)) (\<lambda>num_opc.
     bindE (opc_frames (zip ids index_input)) (\<lambda>list_opc.
       Inr (len @ num_opc @ list_opc))))"

text \<open>\<open>func_gen(fun_idx, fun_type, proto_type, list_opc)\<close> concatenates its arguments.\<close>

definition func_gen :: "pybytes \<Rightarrow> pybytes \<Rightarrow> pybytes \<Rightarrow> pybytes \<Rightarrow> pybytes" where
  "func_gen fun_idx fun_type proto_type list_opc = fun_idx @ fun_type @ proto_type @ list_opc"

section \<open>The catalog's opcode tables\<close>

text \<open>
  The class \<open>ContractMeta\<close> (module \<open>vsyspy.setting\<close>) is not among the sources. Its
  byte-string constants are a parameter of the model: \<open>cm ''assert_opc''\<close> is the value
  of \<open>ContractMeta.assert_opc\<close>.
\<close>

type_synonym ContractMeta = "string \<Rightarrow> pybytes"

definition opc_assert_is_caller_origin :: "ContractMeta \<Rightarrow> pybytes" where
  "opc_assert_is_caller_origin cm = cm ''assert_opc'' @ cm ''is_caller_origin_assert''"

definition opc_assert_is_signer_origin :: "ContractMeta \<Rightarrow> pybytes" where
  "opc_assert_is_signer_origin cm = cm ''assert_opc'' @ cm ''is_signer_origin_assert''"

definition opc_load_signer :: "ContractMeta \<Rightarrow> pybytes" where
  "opc_load_signer cm = cm ''load_opc'' @ cm ''signer_load''"

definition opc_load_caller :: "ContractMeta \<Rightarrow> pybytes" where
  "opc_load_caller cm = cm ''load_opc'' @ cm ''caller_load''"

definition opc_cdbv_set :: "ContractMeta \<Rightarrow> pybytes" where
  "opc_cdbv_set cm = cm ''cdbv_opc'' @ cm ''set_cdbv''"

definition opc_cdbvr_get :: "ContractMeta \<Rightarrow> pybytes" where
  "opc_cdbvr_get cm = cm ''cdbvr_opc'' @ cm ''get_cdbvr''"

definition opc_tdb_new_token :: "ContractMeta \<Rightarrow> pybytes" where
  "opc_tdb_new_token cm = cm ''tdb_opc'' @ cm ''new_token_tdb''"

definition opc_tdb_split :: "ContractMeta \<Rightarrow> pybytes" where
  "opc_tdb_split cm = cm ''tdb_opc'' @ cm ''split_tdb''"

definition opc_tdbr_opc_max :: "ContractMeta \<Rightarrow> pybytes" where
  "opc_tdbr_opc_max cm = cm ''tdbr_opc'' @ cm ''get_tdbr''"

definition opc_tdbr_opc_total :: "ContractMeta \<Rightarrow> pybytes" where
  "opc_tdbr_opc_total cm = cm ''tdbr_opc'' @ cm ''total_tdbr''"

definition opc_tdba_deposit :: "ContractMeta \<Rightarrow> pybytes" where
  "opc_tdba_deposit cm = cm ''tdba_opc'' @ cm ''deposit_tdba''"

definition opc_tdba_withdraw :: "ContractMeta \<Rightarrow> pybytes" where
  "opc_tdba_withdraw cm = cm ''tdba_opc'' @ cm ''withdraw_tdba''"

definition opc_tdba_transfer :: "ContractMeta \<Rightarrow> pybytes" where
  "opc_tdba_transfer cm = cm ''tdba_opc'' @ cm ''transfer_tdba''"

definition opc_tdbar_balance :: "ContractMeta \<Rightarrow> pybytes" where
  "opc_tdbar_balance cm = cm ''tdbar_opc'' @ cm ''balance_tdbar''"

definition opc_return_value :: "ContractMeta \<Rightarrow> pybytes" where
  "opc_return_value cm = cm ''return_opc'' @ [1]"

definition opc_load_signer_index :: "ContractMeta \<Rightarrow> pybytes" where
  "opc_load_signer_index cm = [3]"

definition opc_load_caller_index :: "ContractMeta \<Rightarrow> pybytes" where
  "opc_load_caller_index cm = [2]"

definition init_opc_cdbv_set_signer_index :: "ContractMeta \<Rightarrow> pybytes" where
  "init_opc_cdbv_set_signer_index cm = cm ''state_var_issuer'' @ cm ''init_input_issuer_load_index''"

definition init_opc_cdbv_set_maker_index :: "ContractMeta \<Rightarrow> pybytes" where
  "init_opc_cdbv_set_maker_index cm = cm ''state_var_maker'' @ cm ''init_input_issuer_load_index''"

definition init_opc_tdb_new_token_index :: "ContractMeta \<Rightarrow> pybytes" where
  "init_opc_tdb_new_token_index cm = cm ''init_input_max_index'' @ cm ''init_input_unity_index'' @ cm ''init_input_short_text_index''"

definition init_opc :: "ContractMeta \<Rightarrow> pybytes list" where
  "init_opc cm = [opc_load_signer cm, opc_cdbv_set cm, opc_cdbv_set cm, opc_tdb_new_token cm]"

definition init_opc_index :: "ContractMeta \<Rightarrow> pybytes list" where
  "init_opc_index cm = [opc_load_signer_index cm, init_opc_cdbv_set_signer_index cm, init_opc_cdbv_set_maker_index cm, init_opc_tdb_new_token_index cm]"

definition supersede_opc_cdbvr_get_index :: "ContractMeta \<Rightarrow> pybytes" where
  "supersede_opc_cdbvr_get_index cm = cm ''state_var_maker'' @ [1]"

definition supersede_assert_is_signer_origin_index :: "ContractMeta \<Rightarrow> pybytes" where
  "supersede_assert_is_signer_origin_index cm = cm ''supersede_input_maker''"

definition supersede_opc_cdbv_set_index :: "ContractMeta \<Rightarrow> pybytes" where
  "supersede_opc_cdbv_set_index cm = cm ''state_var_issuer'' @ cm ''supersede_input_new_issuer_index''"

definition supersede_opc :: "ContractMeta \<Rightarrow> pybytes list" where
  "supersede_opc cm = [opc_cdbvr_get cm, opc_assert_is_signer_origin cm, opc_cdbv_set cm]"

definition supersede_opc_index :: "ContractMeta \<Rightarrow> pybytes list" where
  "supersede_opc_index cm = [supersede_opc_cdbvr_get_index cm, supersede_assert_is_signer_origin_index cm, supersede_opc_cdbv_set_index cm]"

definition issue_opc_cdbvr_get_index :: "ContractMeta \<Rightarrow> pybytes" where
  "issue_opc_cdbvr_get_index cm = cm ''state_var_issuer'' @ [1]"

definition issue_opc_assert_is_caller_origin_index :: "ContractMeta \<Rightarrow> pybytes" where
  "issue_opc_assert_is_caller_origin_index cm = cm ''issue_input_issuer_get_index''"

definition issue_opc_tdba_deposit_index :: "ContractMeta \<Rightarrow> pybytes" where
  "issue_opc_tdba_deposit_index cm = cm ''issue_input_issuer_get_index'' @ cm ''issue_input_amount_index''"

definition issue_opc :: "ContractMeta \<Rightarrow> pybytes list" where
  "issue_opc cm = [opc_cdbvr_get cm, opc_assert_is_caller_origin cm, opc_tdba_deposit cm]"

definition issue_opc_index :: "ContractMeta \<Rightarrow> pybytes list" where
  "issue_opc_index cm = [issue_opc_cdbvr_get_index cm, issue_opc_assert_is_caller_origin_index cm, issue_opc_tdba_deposit_index cm]"

definition destroy_opc_cdbvr_get_index :: "ContractMeta \<Rightarrow> pybytes" where
  "destroy_opc_cdbvr_get_index cm = cm ''state_var_issuer'' @ [1]"

definition destroy_opc_assert_is_caller_origin_index :: "ContractMeta \<Rightarrow> pybytes" where
  "destroy_opc_assert_is_caller_origin_index cm = cm ''destroy_input_issuer_get_index''"

definition destroy_opc_tdba_withdraw_index :: "ContractMeta \<Rightarrow> pybytes" where
  "destroy_opc_tdba_withdraw_index cm = cm ''destroy_input_issuer_get_index'' @ cm ''destroy_input_destroy_amount_index''"

definition destroy_opc :: "ContractMeta \<Rightarrow> pybytes list" where
  "destroy_opc cm = [opc_cdbvr_get cm, opc_assert_is_caller_origin cm, opc_tdba_withdraw cm]"

definition destroy_opc_index :: "ContractMeta \<Rightarrow> pybytes list" where
  "destroy_opc_index cm = [destroy_opc_cdbvr_get_index cm, destroy_opc_assert_is_caller_origin_index cm, destroy_opc_tdba_withdraw_index cm]"

definition split_opc_cdbvr_get_index :: "ContractMeta \<Rightarrow> pybytes" where
  "split_opc_cdbvr_get_index cm = cm ''state_var_issuer'' @ [1]"

definition split_opc_assert_is_caller_origin_index :: "ContractMeta \<Rightarrow> pybytes" where
  "split_opc_assert_is_caller_origin_index cm = cm ''split_input_issuer_get_index''"

definition split_opc_tdb_split_index :: "ContractMeta \<Rightarrow> pybytes" where
  "split_opc_tdb_split_index cm = cm ''split_input_new_unity_index''"

definition split_opc :: "ContractMeta \<Rightarrow> pybytes list" where
  "split_opc cm = [opc_cdbvr_get cm, opc_assert_is_caller_origin cm, opc_tdb_split cm]"

definition split_opc_index :: "ContractMeta \<Rightarrow> pybytes list" where
  "split_opc_index cm = [split_opc_cdbvr_get_index cm, split_opc_assert_is_caller_origin_index cm, split_opc_tdb_split_index cm]"

definition send_opc_tdba_transfer_index :: "ContractMeta \<Rightarrow> pybytes" where
  "send_opc_tdba_transfer_index cm = cm ''send_input_sender_index'' @ cm ''send_input_recipient_index'' @ cm ''send_input_amount_index''"

definition send_opc :: "ContractMeta \<Rightarrow> pybytes list" where
  "send_opc cm = [opc_load_caller cm, opc_tdba_transfer cm]"

definition send_opc_index :: "ContractMeta \<Rightarrow> pybytes list" where
  "send_opc_index cm = [opc_load_caller_index cm, send_opc_tdba_transfer_index cm]"

definition transfer_opc_assert_is_caller_origin_index :: "ContractMeta \<Rightarrow> pybytes" where
  "transfer_opc_assert_is_caller_origin_index cm = cm ''transfer_input_sender_index''"

definition transfer_opc_tdba_transfer_index :: "ContractMeta \<Rightarrow> pybytes" where
  "transfer_opc_tdba_transfer_index cm = cm ''transfer_input_sender_index'' @ cm ''transfer_input_recipient_index'' @ cm ''transfer_input_amount_index''"

definition transfer_opc :: "ContractMeta \<Rightarrow> pybytes list" where
  "transfer_opc cm = [opc_assert_is_caller_origin cm, opc_tdba_transfer cm]"

definition transfer_opc_index :: "ContractMeta \<Rightarrow> pybytes list" where
  "transfer_opc_index cm = [transfer_opc_assert_is_caller_origin_index cm, transfer_opc_tdba_transfer_index cm]"

definition deposit_opc_assert_is_caller_origin_index :: "ContractMeta \<Rightarrow> pybytes" where
  "deposit_opc_assert_is_caller_origin_index cm = cm ''deposit_input_sender_index''"

definition deposit_opc_tdba_transfer_index :: "ContractMeta \<Rightarrow> pybytes" where
  "deposit_opc_tdba_transfer_index cm = cm ''deposit_input_sender_index'' @ cm ''deposit_input_smart_contract_index'' @ cm ''deposit_input_amount_index''"

definition deposit_opc :: "ContractMeta \<Rightarrow> pybytes list" where
  "deposit_opc cm = [opc_assert_is_caller_origin cm, opc_tdba_transfer cm]"

definition deposit_opc_index :: "ContractMeta \<Rightarrow> pybytes list" where
  "deposit_opc_index cm = [deposit_opc_assert_is_caller_origin_index cm, deposit_opc_tdba_transfer_index cm]"

definition withdraw_opc_assert_is_caller_origin_index :: "ContractMeta \<Rightarrow> pybytes" where
  "withdraw_opc_assert_is_caller_origin_index cm = cm ''withdraw_input_recipient_index''"

definition withdraw_opc_tdba_transfer_index :: "ContractMeta \<Rightarrow> pybytes" where
  "withdraw_opc_tdba_transfer_index cm = cm ''withdraw_input_smart_contract_index'' @ cm ''withdraw_input_recipient_index'' @ cm ''withdraw_input_amount_index''"

definition withdraw_opc :: "ContractMeta \<Rightarrow> pybytes list" where
  "withdraw_opc cm = [opc_assert_is_caller_origin cm, opc_tdba_transfer cm]"

definition withdraw_opc_index :: "ContractMeta \<Rightarrow> pybytes list" where
  "withdraw_opc_index cm = [withdraw_opc_assert_is_caller_origin_index cm, withdraw_opc_tdba_transfer_index cm]"

definition total_supply_opc_tdbr_total_index :: "ContractMeta \<Rightarrow> pybytes" where
  "total_supply_opc_tdbr_total_index cm = [0]"

definition total_supply_opc :: "ContractMeta \<Rightarrow> pybytes list" where
  "total_supply_opc cm = [opc_tdbr_opc_total cm, opc_return_value cm]"

definition total_supply_opc_index :: "ContractMeta \<Rightarrow> pybytes list" where
  "total_supply_opc_index cm = [total_supply_opc_tdbr_total_index cm, [0]]"

definition max_supply_opc_tdbr_max_index :: "ContractMeta \<Rightarrow> pybytes" where
  "max_supply_opc_tdbr_max_index cm = [0]"

definition max_supply_opc :: "ContractMeta \<Rightarrow> pybytes list" where
  "max_supply_opc cm = [opc_tdbr_opc_max cm, opc_return_value cm]"

definition max_supply_opc_index :: "ContractMeta \<Rightarrow> pybytes list" where
  "max_supply_opc_index cm = [max_supply_opc_tdbr_max_index cm, [0]]"

definition balance_of_opc_tdbar_balance_index :: "ContractMeta \<Rightarrow> pybytes" where
  "balance_of_opc_tdbar_balance_index cm = cm ''balance_of_input_account_index'' @ [1]"

definition balance_of_opc :: "ContractMeta \<Rightarrow> pybytes list" where
  "balance_of_opc cm = [opc_tdbar_balance cm, opc_return_value cm]"

definition balance_of_opc_index :: "ContractMeta \<Rightarrow> pybytes list" where
  "balance_of_opc_index cm = [balance_of_opc_tdbar_balance_index cm, [1]]"

definition get_issuer_opc_cdbvr_get_index :: "ContractMeta \<Rightarrow> pybytes" where
  "get_issuer_opc_cdbvr_get_index cm = cm ''state_var_issuer'' @ [0]"

definition get_issuer_opc :: "ContractMeta \<Rightarrow> pybytes list" where
  "get_issuer_opc cm = [opc_cdbvr_get cm, opc_return_value cm]"

definition get_issuer_opc_index :: "ContractMeta \<Rightarrow> pybytes list" where
  "get_issuer_opc_index cm = [get_issuer_opc_cdbvr_get_index cm, [0]]"

text \<open>
  The arguments with which the generators of \<open>ContractDefaults\<close> call
  \<open>list_opc_gen\<close>: \<open>init_fun_gen\<close> for \<open>trigger\<close>, the eleven generators of
  \<open>descriptor_without_split\<close> and the twelve of \<open>descriptor_with_split\<close>, in the order
  of the source. A generator and its \<open>_without_split\<close> variant pass the same tables;
  they differ in the function id.
\<close>

definition trigger_opc_tables :: "ContractMeta \<Rightarrow> (pybytes list \<times> pybytes list) list" where
  "trigger_opc_tables cm = [(init_opc cm, init_opc_index cm)]"

definition descriptor_without_split_opc_tables :: "ContractMeta \<Rightarrow> (pybytes list \<times> pybytes list) list" where
  "descriptor_without_split_opc_tables cm = [(supersede_opc cm, supersede_opc_index cm),
     (issue_opc cm, issue_opc_index cm),
     (destroy_opc cm, destroy_opc_index cm),
     (send_opc cm, send_opc_index cm),
     (transfer_opc cm, transfer_opc_index cm),
     (deposit_opc cm, deposit_opc_index cm),
     (withdraw_opc cm, withdraw_opc_index cm),
     (total_supply_opc cm, total_supply_opc_index cm),
     (max_supply_opc cm, max_supply_opc_index cm),
     (balance_of_opc cm, balance_of_opc_index cm),
     (get_issuer_opc cm, get_issuer_opc_index cm)]"

definition descriptor_with_split_opc_tables :: "ContractMeta \<Rightarrow> (pybytes list \<times> pybytes list) list" where
  "descriptor_with_split_opc_tables cm = [(supersede_opc cm, supersede_opc_index cm),
     (issue_opc cm, issue_opc_index cm),
     (destroy_opc cm, destroy_opc_index cm),
     (split_opc cm, split_opc_index cm),
     (send_opc cm, send_opc_index cm),
     (transfer_opc cm, transfer_opc_index cm),
     (deposit_opc cm, deposit_opc_index cm),
     (withdraw_opc cm, withdraw_opc_index cm),
     (total_supply_opc cm, total_supply_opc_index cm),
     (max_supply_opc cm, max_supply_opc_index cm),
     (balance_of_opc cm, balance_of_opc_index cm),
     (get_issuer_opc cm, get_issuer_opc_index cm)]"

section \<open>Well-formed values\<close>

text \<open>
  An entry is \<open>constructed\<close> when it is the object that the constructor builds from
  the entry's own \<open>data\<close> and tag (the first byte of \<open>bytes\<close>).
\<close>

definition constructed :: "DataEntry \<Rightarrow> bool" where
  "constructed e \<longleftrightarrow> DataEntry_init (data e) (take 1 (bytes e)) = Inr e"

text \<open>
  The constructor checks the payload length of public keys and addresses only. An entry is
  \<open>wire_sized\<close> when a contract-account payload has the 26 bytes and a token-id payload
  the 30 bytes that \<open>parse_data_entry_array_size\<close> reads for these tags.
\<close>

definition wire_sized :: "DataEntry \<Rightarrow> bool" where
  "wire_sized e \<longleftrightarrow>
     (data_type e = ''contract_account'' \<longrightarrow> length (data_bytes e) = address_length)
     \<and> (data_type e = ''token_id'' \<longrightarrow> length (data_bytes e) = token_address_length)"

text \<open>
  The text of a key, address, contract account or token id is \<open>canonical\<close> when it is
  the base58 text that \<open>b58encode\<close> produces for the payload. Every constructed entry
  has a canonical text (\<open>constructed_canonical\<close> below).
\<close>

definition canonical_text :: "DataEntry \<Rightarrow> bool" where
  "canonical_text e \<longleftrightarrow>
     (data_type e \<in> {''public_key'', ''address'', ''contract_account'', ''token_id''} \<longrightarrow>
        data e = PyStr (bytes2str (b58encode (data_bytes e))))"

text \<open>
  A byte string is decoded within its bounds when \<open>data_entries_from_bytes\<close> succeeds
  on it and the final value of \<open>pos_drift\<close> does not exceed its length: every declared
  entry lies inside the byte string.
\<close>

definition decodes_within :: "pybytes \<Rightarrow> bool" where
  "decodes_within b \<longleftrightarrow>
     (case unpack_H (slice b 0 2) of
        Inl err \<Rightarrow> False
      | Inr n \<Rightarrow>
          (case entries_loop b n 2 [] of
             Inl err \<Rightarrow> False
           | Inr (all_data, pos) \<Rightarrow> pos \<le> length b))"

text \<open>
  \<open>list_frame xs\<close> is the value of \<open>serialize_arrays(xs)\<close> and \<open>section_frame xs\<close>
  the value of \<open>serialize_array(serialize_arrays(xs))\<close> when the count and the length
  fit their 2-byte prefixes.
\<close>

definition list_frame :: "pybytes list \<Rightarrow> pybytes" where
  "list_frame xs = be_bytes 2 (length xs) @ concat xs"

definition section_frame :: "pybytes list \<Rightarrow> pybytes" where
  "section_frame xs = be_bytes 2 (length (list_frame xs)) @ list_frame xs"



section \<open>Basic facts\<close>

lemmas Type_defs =
  public_key_def key_length_def address_def address_length_def amount_def amount_length_def
  int32_def int32_length_def short_text_def max_short_text_size_def contract_account_def
  contract_account_length_def account_def token_id_def token_address_length_def
  timestamp_def boolean_def balance_def

lemma length_be_bytes [simp]: "length (be_bytes k n) = k"
  by (induction k arbitrary: n) auto

lemma be_value_Nil [simp]: "be_value [] = 0"
  by (simp add: be_value_def)

lemma be_value_snoc [simp]: "be_value (bs @ [b]) = be_value bs * 256 + unat b"
  by (simp add: be_value_def)

lemma unat_of_nat_byte: "n < 256 \<Longrightarrow> unat (of_nat n :: 8 word) = n"
  by (simp add: unat_of_nat)

lemma be_value_be_bytes: "n < 256 ^ k \<Longrightarrow> be_value (be_bytes k n) = n"
proof (induction k arbitrary: n)
  case 0
  then show ?case by simp
next
  case (Suc k)
  have "n div 256 < 256 ^ k" using Suc.prems by (simp add: less_mult_imp_div_less mult.commute)
  then have "be_value (be_bytes k (n div 256)) = n div 256" by (rule Suc.IH)
  then show ?case by (simp add: unat_of_nat_byte)
qed

lemma be_bytes_numeral:
  "be_bytes (numeral k) n = be_bytes (pred_numeral k) (n div 256) @ [of_nat (n mod 256)]"
proof -
  have "be_bytes (Suc (pred_numeral k)) n =
      be_bytes (pred_numeral k) (n div 256) @ [of_nat (n mod 256)]"
    by simp
  then show ?thesis by (simp only: numeral_eq_Suc [symmetric])
qed

lemma slice_all [simp]: "slice xs 0 (length xs) = xs"
  by (simp add: slice_def)

lemma slice_skip:
  "length a \<le> i \<Longrightarrow> slice (a @ b) i j = slice b (i - length a) (j - length a)"
  by (simp add: slice_def)

lemma slice_into:
  "length a \<le> j \<Longrightarrow> slice (a @ b) 0 j = a @ slice b 0 (j - length a)"
  by (simp add: slice_def)

lemma slice_empty [simp]: "slice b i i = []" "slice [] i j = []"
  by (simp_all add: slice_def)

lemmas slice_own = slice_skip slice_into



lemma bindE_Inr_iff: "bindE m f = Inr y \<longleftrightarrow> (\<exists>x. m = Inr x \<and> f x = Inr y)"
  by (cases m) simp_all

lemma bindE_Inl_iff: "bindE m f = Inl e \<longleftrightarrow> m = Inl e \<or> (\<exists>x. m = Inr x \<and> f x = Inl e)"
  by (cases m) simp_all

lemma struct_unpack_pack:
  "struct_pack k v = Inr bs \<Longrightarrow> \<exists>i. v = PyInt i \<and> 0 \<le> i \<and> i < 256 ^ k \<and> bs = be_bytes k (nat i) \<and> struct_unpack k bs = Inr (nat i)"
  apply (cases v)
   apply (auto simp: struct_pack_def struct_unpack_def split: if_splits)
  apply (rule be_value_be_bytes)
  by (metis nat_less_iff of_nat_numeral of_nat_power)

lemma struct_pack_nat:
  "struct_pack k (PyInt (int n)) = (if n < 256 ^ k then Inr (be_bytes k n) else Inl StructError)"
proof -
  have "int n < 256 ^ k \<longleftrightarrow> n < 256 ^ k"
    by (metis of_nat_less_iff of_nat_numeral of_nat_power)
  then show ?thesis by (simp add: struct_pack_def)
qed

lemma serialize_array_eq:
  "serialize_array b = (if length b < 65536 then Inr (be_bytes 2 (length b) @ b) else Inl StructError)"
  by (simp add: serialize_array_def struct_pack_def)


lemma map_unat_of_nat: "\<forall>c \<in> set s. c < 256 \<Longrightarrow> map unat (map of_nat s :: 8 word list) = s"
  by (induction s) (simp_all add: unat_of_nat_byte)

lemma bytes2str_of_nat: "\<forall>c \<in> set s. c < 256 \<Longrightarrow> bytes2str (map of_nat s) = s"
  unfolding bytes2str_def by (rule map_unat_of_nat)

subsection \<open>The base58 model\<close>

text \<open>
  The text that \<open>b58encode\<close> produces is accepted by \<open>b58decode\<close>, and encoding the
  bytes that \<open>b58decode\<close> returns for a text gives that text back.
\<close>

lemma b58_alphabet_eval:
  "b58_alphabet = [49, 50, 51, 52, 53, 54, 55, 56, 57, 65, 66, 67, 68, 69, 70, 71, 72, 74, 75, 76,
     77, 78, 80, 81, 82, 83, 84, 85, 86, 87, 88, 89, 90, 97, 98, 99, 100, 101, 102, 103, 104, 105,
     106, 107, 109, 110, 111, 112, 113, 114, 115, 116, 117, 118, 119, 120, 121, 122]"
  by (simp add: b58_alphabet_def)

lemma length_b58_alphabet: "length b58_alphabet = 58"
  by (simp add: b58_alphabet_eval)

lemma b58_alphabet_bytes: "\<forall>c \<in> set b58_alphabet. c < 256"
  by (simp add: b58_alphabet_eval)

lemma index_of_less: "c \<in> set xs \<Longrightarrow> index_of c xs < length xs"
  by (induction xs) auto

lemma nth_index_of: "c \<in> set xs \<Longrightarrow> xs ! index_of c xs = c"
  by (induction xs) auto

lemma index_of_zero: "index_of c (x # xs) = 0 \<longleftrightarrow> c = x"
  by simp

lemma b58_index_facts:
  assumes "c \<in> set b58_alphabet"
  shows "index_of c b58_alphabet < 58" "b58_alphabet ! index_of c b58_alphabet = c"
    "index_of c b58_alphabet = 0 \<longleftrightarrow> c = 49" "c < 256"
proof -
  from index_of_less [OF assms] show "index_of c b58_alphabet < 58"
    by (simp add: length_b58_alphabet)
  from assms show "b58_alphabet ! index_of c b58_alphabet = c" by (rule nth_index_of)
  show "index_of c b58_alphabet = 0 \<longleftrightarrow> c = 49"
    unfolding b58_alphabet_eval by (rule index_of_zero)
  from assms b58_alphabet_bytes show "c < 256" by blast
qed


lemma digits58_Nil: "digits58 n = [] \<longleftrightarrow> n = 0"
  by (subst digits58.simps) simp

lemma digits58_value_inv:
  assumes "\<forall>d \<in> set ds. d < 58" "ds = [] \<or> hd ds \<noteq> 0"
  shows "digits58 (foldl (\<lambda>a d. a * 58 + d) 0 ds) = ds"
  using assms
proof (induction ds rule: rev_induct)
  case Nil
  then show ?case by (simp add: digits58.simps)
next
  case (snoc d ds)
  let ?N = "foldl (\<lambda>a d. a * 58 + d) 0 ds"
  from snoc.prems have d: "d < 58" and ds: "\<forall>d \<in> set ds. d < 58" by simp_all
  show ?case
  proof (cases "ds = []")
    case True
    with snoc.prems have "d \<noteq> 0" by simp
    with d True show ?thesis
      by (simp add: digits58.simps [of d] digits58.simps [of 0])
  next
    case False
    with snoc.prems have "hd ds \<noteq> 0" by simp
    with snoc.IH ds have ih: "digits58 ?N = ds" by simp
    with False have "?N \<noteq> 0" using digits58_Nil by metis
    then have "?N * 58 + d \<noteq> 0" by simp
    then have "digits58 (?N * 58 + d) = digits58 ((?N * 58 + d) div 58) @ [(?N * 58 + d) mod 58]"
      by (subst digits58.simps) simp
    with d ih show ?thesis by simp
  qed
qed

lemma digits256_bound: "\<forall>d \<in> set (digits256 n). d < 256"
proof (induction n rule: digits256.induct)
  case (1 n)
  show ?case
  proof (cases "n = 0")
    case True
    then show ?thesis by (simp add: digits256.simps)
  next
    case False
    with 1 show ?thesis by (subst digits256.simps) auto
  qed
qed

lemma digits256_value: "foldl (\<lambda>a d. a * 256 + d) 0 (digits256 n) = n"
proof (induction n rule: digits256.induct)
  case (1 n)
  show ?case
  proof (cases "n = 0")
    case True
    then show ?thesis by (simp add: digits256.simps)
  next
    case False
    with 1 show ?thesis by (subst digits256.simps) simp
  qed
qed

lemma digits256_Nil: "digits256 n = [] \<longleftrightarrow> n = 0"
  by (subst digits256.simps) simp

lemma digits256_hd: "n \<noteq> 0 \<Longrightarrow> hd (digits256 n) \<noteq> 0"
proof (induction n rule: digits256.induct)
  case (1 n)
  show ?case
  proof (cases "n div 256 = 0")
    case True
    with "1.prems" have "digits256 n = [n]" "n \<noteq> 0"
      by (simp_all add: digits256.simps [of n] digits256.simps [of 0])
    then show ?thesis by simp
  next
    case False
    with 1 have "hd (digits256 (n div 256)) \<noteq> 0" by simp
    moreover from False have "digits256 (n div 256) \<noteq> []" by (simp add: digits256_Nil)
    ultimately show ?thesis using "1.prems" by (subst digits256.simps) simp
  qed
qed

lemma be_value_of_nat:
  "\<forall>d \<in> set ds. d < 256 \<Longrightarrow> be_value (map of_nat ds) = foldl (\<lambda>a d. a * 256 + d) 0 ds"
  by (induction ds rule: rev_induct) (simp_all add: unat_of_nat_byte)

lemma of_nat_byte_zero:
  assumes "d < 256"
  shows "(of_nat d :: 8 word) = 0 \<longleftrightarrow> d = 0"
proof
  assume "(of_nat d :: 8 word) = 0"
  then have "unat (of_nat d :: 8 word) = 0" by simp
  with unat_of_nat_byte [OF assms] show "d = 0" by simp
next
  assume "d = 0"
  then show "(of_nat d :: 8 word) = 0" by simp
qed

lemma leading_zeros:
  assumes "\<forall>d \<in> set ds. d < 256" "ds = [] \<or> hd ds \<noteq> 0"
  shows "takeWhile (\<lambda>b. b = 0) (replicate k 0 @ (map of_nat ds :: 8 word list)) = replicate k 0"
    and "dropWhile (\<lambda>b. b = 0) (replicate k 0 @ (map of_nat ds :: 8 word list)) = map of_nat ds"
proof -
  have "takeWhile (\<lambda>b. b = 0) (map of_nat ds :: 8 word list) = []
      \<and> dropWhile (\<lambda>b. b = 0) (map of_nat ds :: 8 word list) = map of_nat ds"
  proof (cases ds)
    case Nil
    then show ?thesis by simp
  next
    case (Cons d ds')
    with assms have "d < 256" "d \<noteq> 0" by simp_all
    then have "(of_nat d :: 8 word) \<noteq> 0" by (simp add: of_nat_byte_zero)
    with Cons show ?thesis by simp
  qed
  then show "takeWhile (\<lambda>b. b = 0) (replicate k 0 @ (map of_nat ds :: 8 word list)) = replicate k 0"
    and "dropWhile (\<lambda>b. b = 0) (replicate k 0 @ (map of_nat ds :: 8 word list)) = map of_nat ds"
    by (induction k) simp_all
qed

lemma takeWhile_eq_replicate: "takeWhile (\<lambda>c. c = x) s = replicate (length (takeWhile (\<lambda>c. c = x) s)) x"
  by (induction s) simp_all

lemma dropWhile_hd: "dropWhile (\<lambda>c. c = x) s = [] \<or> hd (dropWhile (\<lambda>c. c = x) s) \<noteq> x"
  by (induction s) simp_all

lemma b58decode_int_eq:
  "b58decode_int r = foldl (\<lambda>a d. a * 58 + d) 0 (map (\<lambda>c. index_of c b58_alphabet) r)"
  by (simp add: b58decode_int_def foldl_map)



lemma b58_canonical:
  assumes "b58decode (PyStr s) = Inr p"
  shows "bytes2str (b58encode p) = s"
proof -
  let ?ones = "takeWhile (\<lambda>c. c = 49) s" and ?rest = "dropWhile (\<lambda>c. c = 49) s"
  let ?k = "length ?ones"
  let ?ds = "map (\<lambda>c. index_of c b58_alphabet) ?rest"
  let ?acc = "b58decode_int ?rest"
  from assms have al: "\<forall>c \<in> set s. c \<in> set b58_alphabet"
    and p: "p = replicate ?k 0 @ map of_nat (digits256 ?acc)"
    by (auto simp: b58decode_def Let_def split: if_splits)
  have rest_al: "\<forall>c \<in> set ?rest. c \<in> set b58_alphabet"
    using al by (meson set_dropWhileD)
  have dz: "digits256 ?acc = [] \<or> hd (digits256 ?acc) \<noteq> 0"
    using digits256_hd [of ?acc] digits256_Nil [of ?acc] by blast
  have tw: "takeWhile (\<lambda>b. b = 0) p = replicate ?k 0"
    and dw: "dropWhile (\<lambda>b. b = 0) p = map of_nat (digits256 ?acc)"
    unfolding p by (rule leading_zeros [OF digits256_bound dz])+
  have bv: "be_value (map of_nat (digits256 ?acc)) = ?acc"
    by (simp add: be_value_of_nat digits256_bound digits256_value)
  have ds58: "\<forall>d \<in> set ?ds. d < 58"
    using rest_al b58_index_facts(1) by auto
  have ds0: "?ds = [] \<or> hd ?ds \<noteq> 0"
  proof (cases ?rest)
    case Nil
    then show ?thesis by simp
  next
    case (Cons c cs)
    with dropWhile_hd [of 49 s] have "c \<noteq> 49" by auto
    moreover from Cons rest_al have "c \<in> set b58_alphabet" by simp
    ultimately have "index_of c b58_alphabet \<noteq> 0" by (simp add: b58_index_facts(3))
    with Cons show ?thesis by simp
  qed
  have dg: "digits58 ?acc = ?ds"
    unfolding b58decode_int_eq by (rule digits58_value_inv [OF ds58 ds0])
  have rt: "map (\<lambda>d. unat (of_nat (b58_alphabet ! d) :: 8 word)) ?ds = ?rest"
  proof -
    have "unat (of_nat (b58_alphabet ! index_of c b58_alphabet) :: 8 word) = c"
      if "c \<in> set ?rest" for c
    proof -
      from that rest_al have "c \<in> set b58_alphabet" by blast
      then show ?thesis by (simp add: b58_index_facts(2,4) unat_of_nat_byte)
    qed
    then show ?thesis by (simp add: map_idI)
  qed
  have "bytes2str (b58encode p) =
      replicate ?k 49 @ map (\<lambda>d. unat (of_nat (b58_alphabet ! d) :: 8 word)) (digits58 ?acc)"
    by (simp add: b58encode_def bytes2str_def Let_def tw dw bv o_def)
  also have "\<dots> = replicate ?k 49 @ ?rest"
    unfolding dg rt ..
  also have "\<dots> = ?ones @ ?rest"
    using takeWhile_eq_replicate [of 49 s] by simp
  finally show ?thesis by simp
qed



lemma b58encode_zeros: "bytes2str (b58encode (replicate n 0)) = replicate n 49"
  by (simp add: b58encode_def bytes2str_def digits58.simps)

subsection \<open>What the constructor builds\<close>

lemma tag_lengths [simp]:
  "length public_key = 1" "length address = 1" "length amount = 1" "length int32 = 1"
  "length short_text = 1" "length contract_account = 1" "length token_id = 1"
  "length timestamp = 1"
  by (simp_all add: Type_defs)

lemma tag_neqs [simp]:
  "address \<noteq> public_key" "amount \<noteq> public_key" "int32 \<noteq> public_key"
  "short_text \<noteq> public_key" "contract_account \<noteq> public_key" "token_id \<noteq> public_key"
  "timestamp \<noteq> public_key"
  "amount \<noteq> address" "int32 \<noteq> address" "short_text \<noteq> address"
  "contract_account \<noteq> address" "token_id \<noteq> address" "timestamp \<noteq> address"
  "int32 \<noteq> amount" "short_text \<noteq> amount" "contract_account \<noteq> amount"
  "token_id \<noteq> amount" "timestamp \<noteq> amount"
  "short_text \<noteq> int32" "contract_account \<noteq> int32" "token_id \<noteq> int32" "timestamp \<noteq> int32"
  "contract_account \<noteq> short_text" "token_id \<noteq> short_text" "timestamp \<noteq> short_text"
  "token_id \<noteq> contract_account" "timestamp \<noteq> contract_account"
  "timestamp \<noteq> token_id"
  by (simp_all add: Type_defs)

lemma tag_nonempty [simp]:
  "public_key \<noteq> []" "address \<noteq> []" "amount \<noteq> []" "int32 \<noteq> []" "short_text \<noteq> []"
  "contract_account \<noteq> []" "token_id \<noteq> []" "timestamp \<noteq> []"
  by (simp_all add: Type_defs)

lemmas tag_neqs_sym [simp] = tag_neqs [symmetric] tag_nonempty [symmetric]

lemma DataEntry_init_amount:
  "DataEntry_init (PyInt v) amount =
     (if v < 0 \<or> 2 ^ 64 \<le> v then Inl StructError
      else if v = 0 then Inl ValueError
      else Inr \<lparr>data = PyInt v, data_type = ''amount'', data_bytes = be_bytes 8 (nat v),
                bytes = amount @ be_bytes 8 (nat v)\<rparr>)"
proof -
  have ne: "amount \<noteq> public_key" "amount \<noteq> address" by (simp_all add: Type_defs)
  show ?thesis
  proof (cases "v < 0 \<or> 2 ^ 64 \<le> v")
    case True
    then show ?thesis
      by (auto simp: DataEntry_init_def check_data_type_def struct_pack_def ne)
  next
    case False
    then have "nat v < 256 ^ 8" by auto
    then have bv: "be_value (be_bytes 8 (nat v)) = nat v" by (rule be_value_be_bytes)
    from False show ?thesis
      by (auto simp: DataEntry_init_def check_data_type_def init_branches_def struct_pack_def
          struct_unpack_def ne bv amount_length_def)
  qed
qed

lemma DataEntry_init_unhandled:
  assumes "dt \<notin> {public_key, address, amount, int32, short_text, contract_account, token_id, timestamp}"
  shows "DataEntry_init d dt = Inl AttributeError"
  using assms by (simp add: DataEntry_init_def check_data_type_def init_branches_def)

lemma DataEntry_init_tag:
  assumes "DataEntry_init d dt = Inr e"
  shows "dt \<in> {public_key, address, amount, int32, short_text, contract_account, token_id, timestamp}"
proof (rule ccontr)
  assume "\<not> ?thesis"
  then have "DataEntry_init d dt = Inl AttributeError" by (rule DataEntry_init_unhandled)
  with assms show False by simp
qed

lemma DataEntry_init_public_key:
  "DataEntry_init d public_key =
     bindE (b58decode d) (\<lambda>p. if length p = key_length
        then Inr \<lparr>data = d, data_type = ''public_key'', data_bytes = p, bytes = public_key @ p\<rparr>
        else Inl ValueError)"
  by (cases "b58decode d") (simp_all add: DataEntry_init_def check_data_type_def init_branches_def)

lemma DataEntry_init_address:
  "DataEntry_init d address =
     bindE (b58decode d) (\<lambda>p. if length p = address_length
        then Inr \<lparr>data = d, data_type = ''address'', data_bytes = p, bytes = address @ p\<rparr>
        else Inl ValueError)"
  by (cases "b58decode d")
    (simp_all add: DataEntry_init_def check_data_type_def init_branches_def Type_defs)

lemma DataEntry_init_contract_account:
  "DataEntry_init d contract_account =
     bindE (b58decode d) (\<lambda>p.
        Inr \<lparr>data = d, data_type = ''contract_account'', data_bytes = p, bytes = contract_account @ p\<rparr>)"
  by (cases "b58decode d")
    (simp_all add: DataEntry_init_def check_data_type_def init_branches_def Type_defs)

lemma DataEntry_init_token_id:
  "DataEntry_init d token_id =
     bindE (b58decode d) (\<lambda>p.
        Inr \<lparr>data = d, data_type = ''token_id'', data_bytes = p, bytes = token_id @ p\<rparr>)"
  by (cases "b58decode d")
    (simp_all add: DataEntry_init_def check_data_type_def init_branches_def Type_defs)

lemma DataEntry_init_timestamp:
  "DataEntry_init d timestamp =
     bindE (pack_Q d) (\<lambda>p.
        Inr \<lparr>data = d, data_type = ''timestamp'', data_bytes = p, bytes = timestamp @ p\<rparr>)"
  by (cases "pack_Q d")
    (simp_all add: DataEntry_init_def check_data_type_def init_branches_def Type_defs)

lemma DataEntry_init_int32:
  "DataEntry_init (PyInt v) int32 =
     (if v < 0 \<or> 2 ^ 32 \<le> v then Inl StructError
      else if v = 0 then Inl ValueError
      else Inr \<lparr>data = PyInt v, data_type = ''int32'', data_bytes = be_bytes 4 (nat v),
                bytes = int32 @ be_bytes 4 (nat v)\<rparr>)"
proof (cases "v < 0 \<or> 2 ^ 32 \<le> v")
  case True
  then show ?thesis
    by (auto simp: DataEntry_init_def check_data_type_def struct_pack_def Type_defs)
next
  case False
  then have "nat v < 256 ^ 4" by auto
  then have bv: "be_value (be_bytes 4 (nat v)) = nat v" by (rule be_value_be_bytes)
  from False show ?thesis
    by (auto simp: DataEntry_init_def check_data_type_def init_branches_def struct_pack_def
        struct_unpack_def bv Type_defs)
qed

lemma DataEntry_init_num_str:
  "DataEntry_init (PyStr s) amount = Inl StructError"
  "DataEntry_init (PyStr s) int32 = Inl StructError"
  "DataEntry_init (PyStr s) timestamp = Inl StructError"
  by (simp_all add: DataEntry_init_def check_data_type_def init_branches_def struct_pack_def Type_defs)

lemma DataEntry_init_short_text:
  assumes "\<forall>c \<in> set s. c < 256"
  shows "DataEntry_init (PyStr s) short_text =
     (if 65536 \<le> length s then Inl StructError
      else if max_short_text_size < length s then Inl ValueError
      else Inr \<lparr>data = PyStr s, data_type = ''short_text'',
                data_bytes = be_bytes 2 (length s) @ map of_nat s,
                bytes = short_text @ be_bytes 2 (length s) @ map of_nat s\<rparr>)"
proof (cases "65536 \<le> length s")
  case True
  with assms show ?thesis
    by (simp add: DataEntry_init_def check_data_type_def str2bytes_def serialize_array_eq Type_defs)
next
  case False
  then have "length s < 256 ^ 2" by simp
  then have bv: "be_value (be_bytes 2 (length s)) = length s" by (rule be_value_be_bytes)
  have sl: "slice (be_bytes 2 (length s) @ (map of_nat s :: 8 word list)) 0 2 = be_bytes 2 (length s)"
    by (simp add: slice_def)
  from False assms show ?thesis
    by (simp add: DataEntry_init_def check_data_type_def init_branches_def str2bytes_def
        serialize_array_eq struct_unpack_def sl bv Type_defs)
qed

lemma DataEntry_init_short_text_bad:
  "\<not> (\<forall>c \<in> set s. c < 256) \<Longrightarrow> DataEntry_init (PyStr s) short_text = Inl UnicodeEncodeError"
  "DataEntry_init (PyInt v) short_text = Inl AttributeError"
  by (auto simp: DataEntry_init_def check_data_type_def str2bytes_def Type_defs)

lemma DataEntry_init_fields:
  assumes "DataEntry_init d dt = Inr e"
  shows "data e = d \<and> bytes e = dt @ data_bytes e"
  using assms
  by (auto simp: DataEntry_init_def bindE_Inr_iff split: if_splits option.splits)

lemma constructedI:
  assumes "DataEntry_init d dt = Inr e"
  shows "constructed e"
proof -
  from DataEntry_init_tag [OF assms] have "length dt = 1" by auto
  with DataEntry_init_fields [OF assms] have "data e = d" "take 1 (bytes e) = dt" by simp_all
  with assms show ?thesis by (simp add: constructed_def)
qed

lemma constructed_iff: "constructed e \<longleftrightarrow> (\<exists>d dt. DataEntry_init d dt = Inr e)"
  using constructedI by (auto simp: constructed_def)

lemma DataEntry_init_b58_payload:
  assumes "DataEntry_init d dt = Inr e"
    and "dt \<in> {public_key, address, contract_account, token_id}"
  shows "b58decode d = Inr (data_bytes e)"
  using assms
  by (auto simp: DataEntry_init_public_key DataEntry_init_address
      DataEntry_init_contract_account DataEntry_init_token_id bindE_Inr_iff split: if_splits)

lemma DataEntry_init_other_name:
  assumes "DataEntry_init d dt = Inr e"
    and "dt \<in> {amount, int32, short_text, timestamp}"
  shows "data_type e \<in> {''amount'', ''int32'', ''short_text'', ''timestamp''}"
  using assms
  by (auto simp: DataEntry_init_def bindE_Inr_iff init_branches_def
      split: if_splits option.splits)

lemma constructed_canonical:
  assumes "constructed e"
  shows "canonical_text e"
proof -
  define dt where "dt = take 1 (bytes e)"
  from assms have i: "DataEntry_init (data e) dt = Inr e" by (simp add: constructed_def dt_def)
  show ?thesis
  proof (cases "dt \<in> {public_key, address, contract_account, token_id}")
    case True
    with i have d: "b58decode (data e) = Inr (data_bytes e)"
      by (rule DataEntry_init_b58_payload)
    then obtain s where s: "data e = PyStr s"
      by (cases "data e") (simp_all add: b58decode_def)
    with d have "bytes2str (b58encode (data_bytes e)) = s" by (simp add: b58_canonical)
    with s show ?thesis by (simp add: canonical_text_def)
  next
    case False
    with DataEntry_init_tag [OF i] have "dt \<in> {amount, int32, short_text, timestamp}" by auto
    with i have "data_type e \<in> {''amount'', ''int32'', ''short_text'', ''timestamp''}"
      by (rule DataEntry_init_other_name)
    then show ?thesis by (auto simp: canonical_text_def)
  qed
qed

subsection \<open>Decoding the bytes of a constructed entry\<close>

lemma decode_eq_b58:
  assumes "dt \<in> {public_key, address, contract_account, token_id}"
  shows "data_entry_from_bytes (dt @ p) =
           map_sum id Some (DataEntry_init (PyStr (bytes2str (b58encode p))) dt)"
  using assms by (auto simp: data_entry_from_bytes_def slice_own tag_neqs_sym)

lemma decode_eq_Q:
  assumes "dt \<in> {amount, timestamp}" "length p = 8"
  shows "data_entry_from_bytes (dt @ p) =
           map_sum id Some (DataEntry_init (PyInt (int (be_value p))) dt)"
  using assms by (auto simp: data_entry_from_bytes_def slice_own tag_neqs_sym struct_unpack_def)

lemma decode_eq_I:
  assumes "length p = 4"
  shows "data_entry_from_bytes (int32 @ p) =
           map_sum id Some (DataEntry_init (PyInt (int (be_value p))) int32)"
  using assms by (auto simp: data_entry_from_bytes_def slice_own tag_neqs_sym struct_unpack_def)

lemma decode_eq_text:
  "data_entry_from_bytes (short_text @ p) =
           map_sum id Some (DataEntry_init (PyStr (bytes2str (drop 2 p))) short_text)"
  by (auto simp: data_entry_from_bytes_def slice_own tag_neqs_sym)

lemma parse_eq_fixed:
  assumes "(dt, n) \<in> {(public_key, key_length), (address, address_length), (amount, amount_length),
      (int32, int32_length), (contract_account, address_length), (token_id, token_address_length),
      (timestamp, amount_length)}"
    and "length p = n"
  shows "parse_data_entry_array_size (pre @ dt @ p @ post) (length pre) =
           bindE (data_entry_from_bytes (dt @ p)) (\<lambda>e. Inr (Some (e, length pre + n + 1)))"
  using assms
  by (auto simp: parse_data_entry_array_size_def fixed_entry_def slice_own tag_neqs_sym)

lemma parse_eq_text:
  assumes "n < 65536" "length body = n"
  shows "parse_data_entry_array_size (pre @ short_text @ be_bytes 2 n @ body @ post) (length pre) =
           bindE (data_entry_from_bytes (short_text @ be_bytes 2 n @ body))
             (\<lambda>e. Inr (Some (e, length pre + n + 3)))"
proof -
  from assms have "n < 256 ^ 2" by simp
  then have bv: "be_value (be_bytes 2 n) = n" by (rule be_value_be_bytes)
  show ?thesis using assms(2)
    by (simp add: parse_data_entry_array_size_def slice_own tag_neqs_sym struct_unpack_def bv)
qed

lemma entry_own_b58:
  assumes c: "DataEntry_init d dt = Inr e"
    and dt: "(dt, n) \<in> {(public_key, key_length), (address, address_length),
               (contract_account, address_length), (token_id, token_address_length)}"
    and w: "wire_sized e" and t: "canonical_text e"
  shows "bytes e = dt @ data_bytes e \<and> length (data_bytes e) = n
         \<and> data_entry_from_bytes (bytes e) = Inr (Some e)"
proof -
  from c dt have b: "bytes e = dt @ data_bytes e" and d: "data e = d"
    and nm: "data_type e \<in> {''public_key'', ''address'', ''contract_account'', ''token_id''}"
    and len: "(dt = public_key \<longrightarrow> length (data_bytes e) = key_length)
              \<and> (dt = address \<longrightarrow> length (data_bytes e) = address_length)"
    and nm2: "dt = contract_account \<longrightarrow> data_type e = ''contract_account''"
             "dt = token_id \<longrightarrow> data_type e = ''token_id''"
    by (auto simp: DataEntry_init_public_key DataEntry_init_address
        DataEntry_init_contract_account DataEntry_init_token_id bindE_Inr_iff split: if_splits)
  from nm t d have canon: "d = PyStr (bytes2str (b58encode (data_bytes e)))"
    by (simp add: canonical_text_def)
  from dt len nm2 w have n: "length (data_bytes e) = n"
    by (auto simp: wire_sized_def)
  from dt have "dt \<in> {public_key, address, contract_account, token_id}" by auto
  then have "data_entry_from_bytes (dt @ data_bytes e) =
      map_sum id Some (DataEntry_init (PyStr (bytes2str (b58encode (data_bytes e)))) dt)"
    by (rule decode_eq_b58)
  with canon c b n show ?thesis by simp
qed

lemma entry_own_Q:
  assumes c: "DataEntry_init d dt = Inr e" and dt: "dt \<in> {amount, timestamp}"
  shows "bytes e = dt @ data_bytes e \<and> length (data_bytes e) = amount_length
         \<and> data_entry_from_bytes (bytes e) = Inr (Some e)"
proof -
  from c dt obtain p where p: "pack_Q d = Inr p" and b: "bytes e = dt @ p" "data_bytes e = p"
    by (auto simp: DataEntry_init_timestamp DataEntry_init_def check_data_type_def
        init_branches_def bindE_Inr_iff split: if_splits)
  from struct_unpack_pack [OF p] obtain i where i: "d = PyInt i" "0 \<le> i" "p = be_bytes 8 (nat i)"
    "struct_unpack 8 p = Inr (nat i)" by blast
  then have bv: "int (be_value p) = i" and l: "length p = 8"
    by (auto simp: struct_unpack_def split: if_splits)
  from decode_eq_Q [OF dt l] bv i c have "data_entry_from_bytes (dt @ p) = Inr (Some e)"
    by simp
  with b l show ?thesis by (simp add: amount_length_def)
qed

lemma entry_own_I:
  assumes c: "DataEntry_init d int32 = Inr e"
  shows "bytes e = int32 @ data_bytes e \<and> length (data_bytes e) = int32_length
         \<and> data_entry_from_bytes (bytes e) = Inr (Some e)"
proof -
  from c obtain p where p: "pack_I d = Inr p" and b: "bytes e = int32 @ p" "data_bytes e = p"
    by (auto simp: DataEntry_init_def check_data_type_def
        init_branches_def bindE_Inr_iff split: if_splits)
  from struct_unpack_pack [OF p] obtain i where i: "d = PyInt i" "0 \<le> i" "p = be_bytes 4 (nat i)"
    "struct_unpack 4 p = Inr (nat i)" by blast
  then have bv: "int (be_value p) = i" and l: "length p = 4"
    by (auto simp: struct_unpack_def split: if_splits)
  from decode_eq_I [OF l] bv i c have "data_entry_from_bytes (int32 @ p) = Inr (Some e)"
    by simp
  with b l show ?thesis by (simp add: int32_length_def)
qed

lemma entry_own_text:
  assumes c: "DataEntry_init d short_text = Inr e"
  shows "\<exists>n body. n < 65536 \<and> length body = n \<and> data_bytes e = be_bytes 2 n @ body
         \<and> bytes e = short_text @ data_bytes e
         \<and> data_entry_from_bytes (bytes e) = Inr (Some e)"
proof -
  from c obtain s where s: "d = PyStr s" "\<forall>c \<in> set s. c < 256"
    by (cases d; cases "\<forall>c \<in> set (case d of PyStr s \<Rightarrow> s | _ \<Rightarrow> []). c < 256")
      (auto simp: DataEntry_init_short_text_bad)
  with c have l: "length s < 65536"
    and e: "e = \<lparr>data = PyStr s, data_type = ''short_text'',
                data_bytes = be_bytes 2 (length s) @ map of_nat s,
                bytes = short_text @ be_bytes 2 (length s) @ map of_nat s\<rparr>"
    by (auto simp: DataEntry_init_short_text split: if_splits)
  have "data_entry_from_bytes (short_text @ be_bytes 2 (length s) @ map of_nat s) =
      map_sum id Some (DataEntry_init (PyStr (bytes2str (drop 2 (be_bytes 2 (length s) @ map of_nat s)))) short_text)"
    by (rule decode_eq_text)
  also have "bytes2str (drop 2 (be_bytes 2 (length s) @ (map of_nat s :: 8 word list))) = s"
    using s(2) by (simp add: bytes2str_of_nat)
  finally have "data_entry_from_bytes (bytes e) = Inr (Some e)"
    using c s e by simp
  with l e show ?thesis by auto
qed

lemma entry_own:
  assumes c: "constructed e" and w: "wire_sized e"
  shows "parse_data_entry_array_size (pre @ bytes e @ post) (length pre) =
           Inr (Some (Some e, length pre + length (bytes e)))"
proof -
  from c have t: "canonical_text e" by (rule constructed_canonical)
  define dt where "dt = take 1 (bytes e)"
  from c have i: "DataEntry_init (data e) dt = Inr e" by (simp add: constructed_def dt_def)
  from DataEntry_init_tag [OF i] consider
      (b58) n where "(dt, n) \<in> {(public_key, key_length), (address, address_length),
               (contract_account, address_length), (token_id, token_address_length)}"
    | (Q) "dt \<in> {amount, timestamp}"
    | (I) "dt = int32"
    | (T) "dt = short_text"
    by auto
  then show ?thesis
  proof cases
    case b58
    from entry_own_b58 [OF i b58 w t]
    have b: "bytes e = dt @ data_bytes e" and l: "length (data_bytes e) = n"
      and f: "data_entry_from_bytes (dt @ data_bytes e) = Inr (Some e)" by auto
    from b58 have "(dt, n) \<in> {(public_key, key_length), (address, address_length), (amount, amount_length),
      (int32, int32_length), (contract_account, address_length), (token_id, token_address_length),
      (timestamp, amount_length)}" by auto
    from parse_eq_fixed [OF this l, of pre post] f b l b58 show ?thesis by auto
  next
    case Q
    from entry_own_Q [OF i Q]
    have b: "bytes e = dt @ data_bytes e" and l: "length (data_bytes e) = amount_length"
      and f: "data_entry_from_bytes (dt @ data_bytes e) = Inr (Some e)" by auto
    from Q have "(dt, amount_length) \<in> {(public_key, key_length), (address, address_length), (amount, amount_length),
      (int32, int32_length), (contract_account, address_length), (token_id, token_address_length),
      (timestamp, amount_length)}" by auto
    from parse_eq_fixed [OF this l, of pre post] f b l Q show ?thesis by auto
  next
    case I
    from entry_own_I [OF i [unfolded I]]
    have b: "bytes e = int32 @ data_bytes e" and l: "length (data_bytes e) = int32_length"
      and f: "data_entry_from_bytes (int32 @ data_bytes e) = Inr (Some e)" by auto
    have "(int32, int32_length) \<in> {(public_key, key_length), (address, address_length), (amount, amount_length),
      (int32, int32_length), (contract_account, address_length), (token_id, token_address_length),
      (timestamp, amount_length)}" by auto
    from parse_eq_fixed [OF this l, of pre post] f b l show ?thesis by auto
  next
    case T
    from entry_own_text [OF i [unfolded T]] obtain n body where
      n: "n < 65536" "length body = n" and db: "data_bytes e = be_bytes 2 n @ body"
      and b: "bytes e = short_text @ data_bytes e"
      and f: "data_entry_from_bytes (bytes e) = Inr (Some e)" by blast
    from parse_eq_text [OF n, of pre post] f b db n show ?thesis by simp
  qed
qed

lemma entries_loop_own:
  assumes "\<forall>e \<in> set xs. constructed e \<and> wire_sized e"
  shows "entries_loop (pre @ concat (map bytes xs) @ post) (length xs) (length pre) acc =
           Inr (acc @ map Some xs, length pre + length (concat (map bytes xs)))"
  using assms
proof (induction xs arbitrary: pre acc)
  case Nil
  then show ?case by simp
next
  case (Cons e es)
  then have e: "constructed e" "wire_sized e"
    and es: "\<forall>e \<in> set es. constructed e \<and> wire_sized e" by simp_all
  have p: "parse_data_entry_array_size (pre @ bytes e @ concat (map bytes es) @ post) (length pre) =
           Inr (Some (Some e, length pre + length (bytes e)))"
    by (rule entry_own [OF e])
  from Cons.IH [OF es, of "pre @ bytes e" "acc @ [Some e]"] p show ?case by simp
qed

lemma serialize_data_eq:
  "serialize_data xs =
     (if length xs < 65536 then Inr (be_bytes 2 (length xs) @ concat (map bytes xs))
      else Inl StructError)"
  by (simp add: serialize_data_def serialize_array_list_def struct_pack_def)

lemma serialize_then_decode:
  assumes n: "length xs < 65536"
    and v: "\<forall>e \<in> set xs. constructed e \<and> wire_sized e"
  shows "serialize_data xs = Inr (be_bytes 2 (length xs) @ concat (map bytes xs))
         \<and> entries_loop (be_bytes 2 (length xs) @ concat (map bytes xs)) (length xs) 2 [] =
             Inr (map Some xs, 2 + length (concat (map bytes xs)))
         \<and> data_entries_from_bytes (be_bytes 2 (length xs) @ concat (map bytes xs)) =
             Inr (map Some xs)"
proof -
  let ?b = "be_bytes 2 (length xs) @ concat (map bytes xs)"
  from n have s: "serialize_data xs = Inr ?b" by (simp add: serialize_data_eq)
  from n have "length xs < 256 ^ 2" by simp
  then have bv: "be_value (be_bytes 2 (length xs)) = length xs" by (rule be_value_be_bytes)
  have u: "unpack_H (slice ?b 0 2) = Inr (length xs)"
    by (simp add: slice_own struct_unpack_def bv)
  from entries_loop_own [OF v, of "be_bytes 2 (length xs)" "[]" "[]"]
  have l: "entries_loop ?b (length xs) 2 [] = Inr (map Some xs, 2 + length (concat (map bytes xs)))"
    by simp
  with u have "data_entries_from_bytes ?b = Inr (map Some xs)"
    by (simp add: data_entries_from_bytes_def)
  with s l show ?thesis by simp
qed


lemma unhandled_tag_TypeError:
  assumes "unpack_H (slice b 0 2) = Inr (Suc n)"
    and "slice b 2 3 \<notin> {public_key, address, amount, int32, short_text, contract_account,
           token_id, timestamp}"
  shows "parse_data_entry_array_size b 2 = Inr None"
    and "data_entries_from_bytes b = Inl TypeError"
proof -
  from assms(2) show p: "parse_data_entry_array_size b 2 = Inr None"
    by (simp add: parse_data_entry_array_size_def)
  with assms(1) show "data_entries_from_bytes b = Inl TypeError"
    by (simp add: data_entries_from_bytes_def)
qed

subsection \<open>Bytes after the declared entries\<close>





lemma serialized_decodes_within:
  assumes "length xs < 65536"
    and "\<forall>e \<in> set xs. constructed e \<and> wire_sized e"
  shows "decodes_within (be_bytes 2 (length xs) @ concat (map bytes xs))"
proof -
  from assms(1) have "length xs < 256 ^ 2" by simp
  then have bv: "be_value (be_bytes 2 (length xs)) = length xs" by (rule be_value_be_bytes)
  have u: "unpack_H (slice (be_bytes 2 (length xs) @ concat (map bytes xs)) 0 2) = Inr (length xs)"
    by (simp add: slice_own struct_unpack_def bv)
  from serialize_then_decode [OF assms] u show ?thesis
    by (simp add: decodes_within_def)
qed

subsection \<open>Opcode frames\<close>

lemma opc_frames_length:
  "opc_frames zs = Inr r \<Longrightarrow> length r = sum_list (opc_sizes zs)"
proof (induction zs arbitrary: r)
  case Nil
  then show ?case by (simp add: opc_sizes_def)
next
  case (Cons z zs)
  from Cons.prems obtain p r' where p: "pack_H (py_len (fst z @ snd z)) = Inr p"
    and r': "opc_frames zs = Inr r'" and r: "r = p @ fst z @ snd z @ r'"
    by (auto simp: bindE_Inr_iff)
  from struct_unpack_pack [OF p] have "length p = 2" by auto
  with Cons.IH [OF r'] r show ?case by (simp add: opc_sizes_def)
qed

lemma opc_frames_succeeds:
  "sum_list (opc_sizes zs) < 65536 \<Longrightarrow> \<exists>r. opc_frames zs = Inr r"
proof (induction zs)
  case Nil
  then show ?case by simp
next
  case (Cons z zs)
  then have "length (fst z @ snd z) < 65536" "sum_list (opc_sizes zs) < 65536"
    by (simp_all add: opc_sizes_def)
  with Cons.IH show ?case by (auto simp: struct_pack_def)
qed

lemma list_opc_gen_succeeds:
  assumes "sum_list (opc_sizes (zip ids index_input)) + 2 < 65536" "length ids < 65536"
  shows "\<exists>frame. list_opc_gen ids index_input = Inr frame"
proof -
  from assms(1) have "sum_list (opc_sizes (zip ids index_input)) < 65536" by simp
  from opc_frames_succeeds [OF this] assms show ?thesis
    unfolding list_opc_gen_def struct_pack_nat by auto
qed

lemma list_opc_gen_Inr:
  assumes "list_opc_gen ids index_input = Inr frame"
  shows "\<exists>r. opc_frames (zip ids index_input) = Inr r
         \<and> sum_list (opc_sizes (zip ids index_input)) + 2 < 65536 \<and> length ids < 65536
         \<and> frame = be_bytes 2 (sum_list (opc_sizes (zip ids index_input)) + 2)
                     @ be_bytes 2 (length ids) @ r"
  using assms unfolding list_opc_gen_def struct_pack_nat
  by (auto simp: bindE_Inr_iff split: if_splits)

lemmas catalog_defs =
  opc_assert_is_caller_origin_def opc_assert_is_signer_origin_def opc_load_signer_def
  opc_load_caller_def opc_cdbv_set_def opc_cdbvr_get_def
  opc_tdb_new_token_def opc_tdb_split_def opc_tdbr_opc_max_def
  opc_tdbr_opc_total_def opc_tdba_deposit_def opc_tdba_withdraw_def
  opc_tdba_transfer_def opc_tdbar_balance_def opc_return_value_def
  opc_load_signer_index_def opc_load_caller_index_def init_opc_cdbv_set_signer_index_def
  init_opc_cdbv_set_maker_index_def init_opc_tdb_new_token_index_def init_opc_def
  init_opc_index_def supersede_opc_cdbvr_get_index_def supersede_assert_is_signer_origin_index_def
  supersede_opc_cdbv_set_index_def supersede_opc_def supersede_opc_index_def
  issue_opc_cdbvr_get_index_def issue_opc_assert_is_caller_origin_index_def issue_opc_tdba_deposit_index_def
  issue_opc_def issue_opc_index_def destroy_opc_cdbvr_get_index_def
  destroy_opc_assert_is_caller_origin_index_def destroy_opc_tdba_withdraw_index_def destroy_opc_def
  destroy_opc_index_def split_opc_cdbvr_get_index_def split_opc_assert_is_caller_origin_index_def
  split_opc_tdb_split_index_def split_opc_def split_opc_index_def
  send_opc_tdba_transfer_index_def send_opc_def send_opc_index_def
  transfer_opc_assert_is_caller_origin_index_def transfer_opc_tdba_transfer_index_def transfer_opc_def
  transfer_opc_index_def deposit_opc_assert_is_caller_origin_index_def deposit_opc_tdba_transfer_index_def
  deposit_opc_def deposit_opc_index_def withdraw_opc_assert_is_caller_origin_index_def
  withdraw_opc_tdba_transfer_index_def withdraw_opc_def withdraw_opc_index_def
  total_supply_opc_tdbr_total_index_def total_supply_opc_def total_supply_opc_index_def
  max_supply_opc_tdbr_max_index_def max_supply_opc_def max_supply_opc_index_def
  balance_of_opc_tdbar_balance_index_def balance_of_opc_def balance_of_opc_index_def
  get_issuer_opc_cdbvr_get_index_def get_issuer_opc_def get_issuer_opc_index_def
  trigger_opc_tables_def descriptor_without_split_opc_tables_def descriptor_with_split_opc_tables_def

lemma catalog_tables_aligned:
  assumes "(ids, index_input) \<in> set (trigger_opc_tables cm @ descriptor_without_split_opc_tables cm
             @ descriptor_with_split_opc_tables cm)"
  shows "length ids = length index_input"
  using assms by (auto simp: catalog_defs)

lemma opc_sizes_bound:
  assumes "\<forall>x \<in> set ids. length x \<le> B" "\<forall>x \<in> set index_input. length x \<le> B"
  shows "sum_list (opc_sizes (zip ids index_input)) \<le> length ids * (2 * B + 2)"
  using assms
proof (induction ids arbitrary: index_input)
  case Nil
  then show ?case by (simp add: opc_sizes_def)
next
  case (Cons a ids)
  show ?case
  proof (cases index_input)
    case Nil
    then show ?thesis by (simp add: opc_sizes_def)
  next
    case (Cons i js)
    with Cons.prems have "length a \<le> B" "length i \<le> B"
      "\<forall>x \<in> set ids. length x \<le> B" "\<forall>x \<in> set js. length x \<le> B" by simp_all
    with Cons.IH [of js] Cons show ?thesis by (simp add: opc_sizes_def)
  qed
qed

lemma catalog_frames_generated:
  assumes b: "\<And>k. length (cm k) \<le> 255"
    and t: "(ids, index_input) \<in> set (trigger_opc_tables cm @ descriptor_without_split_opc_tables cm
             @ descriptor_with_split_opc_tables cm)"
  shows "\<exists>frame. list_opc_gen ids index_input = Inr frame"
proof -
  have 1: "length (cm k) \<le> 766" for k using b [of k] by simp
  have 2: "length (cm k) + length (cm k') \<le> 766" for k k' using b [of k] b [of k'] by simp
  have 3: "length (cm k) + (length (cm k') + length (cm k'')) \<le> 766" for k k' k''
    using b [of k] b [of k'] b [of k''] by simp
  have 4: "length (cm k) \<le> 765" for k using b [of k] by simp
  from t have n: "length ids \<le> 4" by (auto simp: catalog_defs)
  from t have i: "\<forall>x \<in> set ids. length x \<le> 766"
    by (auto simp: catalog_defs 1 2 3 4)
  from t have j: "\<forall>x \<in> set index_input. length x \<le> 766"
    by (auto simp: catalog_defs 1 2 3 4)
  from opc_sizes_bound [OF i j] n
  have "sum_list (opc_sizes (zip ids index_input)) \<le> 4 * (2 * 766 + 2)"
    by (meson le_trans mult_le_mono1)
  then have "sum_list (opc_sizes (zip ids index_input)) + 2 < 65536" by simp
  moreover from n have "length ids < 65536" by simp
  ultimately show ?thesis by (rule list_opc_gen_succeeds)
qed

subsection \<open>Framing and the contract envelope\<close>

lemma serialize_arrays_eq:
  "serialize_arrays xs =
     (if length xs < 65536 then Inr (be_bytes 2 (length xs) @ concat xs) else Inl StructError)"
  by (simp add: serialize_arrays_def struct_pack_nat)

lemma frame_section_eq:
  "bindE (serialize_arrays xs) serialize_array =
     (if length xs < 65536 \<and> 2 + length (concat xs) < 65536
      then Inr (be_bytes 2 (2 + length (concat xs)) @ be_bytes 2 (length xs) @ concat xs)
      else Inl StructError)"
  by (simp add: serialize_arrays_eq serialize_array_eq)





lemma frame_section_Inr:
  "bindE (serialize_arrays xs) serialize_array = Inr y \<longleftrightarrow>
     length xs < 65536 \<and> length (list_frame xs) < 65536 \<and> y = section_frame xs"
  by (auto simp: serialize_arrays_eq serialize_array_eq list_frame_def section_frame_def)




lemma pack_I_1: "pack_I (PyInt 1) = Inr [0, 0, 0, 1]"
  by (simp add: struct_pack_def be_bytes_numeral)

lemma parse_arrays_empty: "bindE (pack_H (PyInt 0)) parse_arrays = Inr []"
  by (simp add: struct_pack_def be_bytes_numeral parse_arrays_def slice_def be_value_def)


lemma parse_array_size_Inl: "parse_array_size b p = Inl e \<Longrightarrow> e = TruncatedInput"
  by (auto simp: parse_array_size_def Let_def split: if_splits)

lemma parse_arrays_loop_Inl: "parse_arrays_loop b k p acc = Inl e \<Longrightarrow> e = TruncatedInput"
  by (induction b k p acc rule: parse_arrays_loop.induct) (auto simp: Let_def split: if_splits)

lemma parse_arrays_Inl: "parse_arrays b = Inl e \<Longrightarrow> e = TruncatedInput"
  by (cases "parse_arrays_loop b (be_value (slice b 0 2)) 2 []")
    (auto simp: parse_arrays_def dest: parse_arrays_loop_Inl split: if_splits)

lemma from_bytes_body_Inl:
  assumes "from_bytes_body b = Inl e"
  shows "e = TruncatedInput"
  using assms unfolding from_bytes_body_def Let_def
  by (auto simp: bindE_Inl_iff parse_arrays_empty split: if_splits
      dest: parse_array_size_Inl parse_arrays_Inl)

lemma from_bytes_Inl:
  assumes "from_bytes b = Inl e"
  shows "e = TruncatedInput"
proof (cases "from_bytes_body b")
  case (Inl e')
  then have "e' = TruncatedInput" by (rule from_bytes_body_Inl)
  with assms Inl show ?thesis by (simp add: from_bytes_def)
next
  case (Inr c)
  with assms show ?thesis by (simp add: from_bytes_def)
qed

section \<open>Construction of data entries\<close>

text \<open>
  C8. Constructing an Amount entry with value 0 raises \<open>ValueError\<close>; the integers for
  which the construction succeeds are exactly those from 1 to \<open>2^64 - 1\<close> (in particular
  1 and \<open>2^64 - 1\<close>); the payload of the entry is the value as 8 big-endian bytes.
  An integer outside the range of the format and a string raise \<open>struct.error\<close>.
\<close>

theorem amount_boundary:
  "DataEntry_init (PyInt 0) amount = Inl ValueError
   \<and> (\<exists>e. DataEntry_init (PyInt 1) amount = Inr e)
   \<and> (\<exists>e. DataEntry_init (PyInt (2 ^ 64 - 1)) amount = Inr e)
   \<and> (\<forall>v. (\<exists>e. DataEntry_init (PyInt v) amount = Inr e) \<longleftrightarrow> 1 \<le> v \<and> v \<le> 2 ^ 64 - 1)
   \<and> (\<forall>v e. DataEntry_init (PyInt v) amount = Inr e \<longrightarrow>
         data e = PyInt v \<and> bytes e = amount @ data_bytes e \<and> length (data_bytes e) = 8
         \<and> int (be_value (data_bytes e)) = v)
   \<and> (\<forall>s. DataEntry_init (PyStr s) amount = Inl StructError)"
proof -
  have 1: "DataEntry_init (PyInt 0) amount = Inl ValueError"
    by (simp add: DataEntry_init_amount)
  have 2: "(\<exists>e. DataEntry_init (PyInt v) amount = Inr e) \<longleftrightarrow> 1 \<le> v \<and> v \<le> 2 ^ 64 - 1" for v
    by (auto simp: DataEntry_init_amount)
  have 3: "data e = PyInt v \<and> bytes e = amount @ data_bytes e \<and> length (data_bytes e) = 8
         \<and> int (be_value (data_bytes e)) = v" if "DataEntry_init (PyInt v) amount = Inr e" for v e
  proof -
    from that have r: "0 < v" "v < 2 ^ 64"
      and e: "e = \<lparr>data = PyInt v, data_type = ''amount'', data_bytes = be_bytes 8 (nat v),
                bytes = amount @ be_bytes 8 (nat v)\<rparr>"
      by (auto simp: DataEntry_init_amount split: if_splits)
    from r have "nat v < 256 ^ 8" by auto
    then have "be_value (be_bytes 8 (nat v)) = nat v" by (rule be_value_be_bytes)
    with r e show ?thesis by simp
  qed
  have 4: "DataEntry_init (PyStr s) amount = Inl StructError" for s
    by (simp add: DataEntry_init_num_str)
  have 5: "\<exists>e. DataEntry_init (PyInt 1) amount = Inr e"
    "\<exists>e. DataEntry_init (PyInt (2 ^ 64 - 1)) amount = Inr e"
    by (simp_all add: 2)
  from 1 2 3 4 5 show ?thesis by blast
qed

theorem amount_boundary_witness:
  "DataEntry_init (PyInt 100) amount =
     Inr \<lparr>data = PyInt 100, data_type = ''amount'', data_bytes = [0, 0, 0, 0, 0, 0, 0, 100],
          bytes = [3, 0, 0, 0, 0, 0, 0, 0, 100]\<rparr>
   \<and> int (be_value [0, 0, 0, 0, 0, 0, 0, 100]) = 100"
proof -
  have h: "DataEntry_init (PyInt 100) amount =
     Inr \<lparr>data = PyInt 100, data_type = ''amount'', data_bytes = [0, 0, 0, 0, 0, 0, 0, 100],
          bytes = [3, 0, 0, 0, 0, 0, 0, 0, 100]\<rparr>"
    by (subst DataEntry_init_amount) (simp add: amount_def be_bytes_numeral)
  from amount_boundary have "\<forall>v e. DataEntry_init (PyInt v) amount = Inr e \<longrightarrow>
         data e = PyInt v \<and> bytes e = amount @ data_bytes e \<and> length (data_bytes e) = 8
         \<and> int (be_value (data_bytes e)) = v" by blast
  from this [rule_format, OF h] h show ?thesis by simp
qed

text \<open>
  C7. A ShortText entry built from a text of exactly 140 characters, each encodable in
  latin-1, is constructed, and its encoding decodes back to the same entry, alone and as a
  one-element list; a text of 141 such characters raises \<open>ValueError\<close>.
\<close>

theorem short_text_boundary:
  "(\<forall>s. length s = 140 \<and> (\<forall>c \<in> set s. c < 256) \<longrightarrow>
      (\<exists>e. DataEntry_init (PyStr s) short_text = Inr e
           \<and> data e = PyStr s
           \<and> bytes e = short_text @ be_bytes 2 140 @ map of_nat s
           \<and> data_entry_from_bytes (bytes e) = Inr (Some e)
           \<and> bindE (serialize_data [e]) data_entries_from_bytes = Inr [Some e]))
   \<and> (\<forall>s. length s = 141 \<and> (\<forall>c \<in> set s. c < 256) \<longrightarrow>
         DataEntry_init (PyStr s) short_text = Inl ValueError)"
proof (intro conjI allI impI)
  fix s :: pystr
  assume a: "length s = 140 \<and> (\<forall>c \<in> set s. c < 256)"
  define e where "e = \<lparr>data = PyStr s, data_type = ''short_text'',
                data_bytes = be_bytes 2 (length s) @ map of_nat s,
                bytes = short_text @ be_bytes 2 (length s) @ map of_nat s\<rparr>"
  from a have i: "DataEntry_init (PyStr s) short_text = Inr e"
    by (simp add: DataEntry_init_short_text e_def max_short_text_size_def)
  from entry_own_text [OF i] have f: "data_entry_from_bytes (bytes e) = Inr (Some e)" by blast
  have c: "constructed e" using i by (rule constructedI)
  have w: "wire_sized e" by (simp add: wire_sized_def e_def)
  from serialize_then_decode [of "[e]"] c w
  have "bindE (serialize_data [e]) data_entries_from_bytes = Inr [Some e]" by simp
  with i f a show "\<exists>e. DataEntry_init (PyStr s) short_text = Inr e
           \<and> data e = PyStr s
           \<and> bytes e = short_text @ be_bytes 2 140 @ map of_nat s
           \<and> data_entry_from_bytes (bytes e) = Inr (Some e)
           \<and> bindE (serialize_data [e]) data_entries_from_bytes = Inr [Some e]"
    by (auto simp: e_def)
next
  fix s :: pystr
  assume "length s = 141 \<and> (\<forall>c \<in> set s. c < 256)"
  then show "DataEntry_init (PyStr s) short_text = Inl ValueError"
    by (simp add: DataEntry_init_short_text max_short_text_size_def)
qed

theorem short_text_boundary_witness:
  "length (replicate 140 (97::nat)) = 140
   \<and> list_all (\<lambda>c. c < 256) (replicate 140 (97::nat))
   \<and> (\<exists>e. DataEntry_init (PyStr (replicate 140 97)) short_text = Inr e
           \<and> data e = PyStr (replicate 140 97)
           \<and> bindE (serialize_data [e]) data_entries_from_bytes = Inr [Some e])
   \<and> length (replicate 141 (97::nat)) = 141
   \<and> list_all (\<lambda>c. c < 256) (replicate 141 (97::nat))
   \<and> DataEntry_init (PyStr (replicate 141 97)) short_text = Inl ValueError"
proof -
  have h1: "length (replicate 140 (97::nat)) = 140 \<and> (\<forall>c \<in> set (replicate 140 (97::nat)). c < 256)"
    by simp
  have h2: "length (replicate 141 (97::nat)) = 141 \<and> (\<forall>c \<in> set (replicate 141 (97::nat)). c < 256)"
    by simp
  from short_text_boundary have
    a: "\<forall>s. length s = 140 \<and> (\<forall>c \<in> set s. c < 256) \<longrightarrow>
      (\<exists>e. DataEntry_init (PyStr s) short_text = Inr e
           \<and> data e = PyStr s
           \<and> bytes e = short_text @ be_bytes 2 140 @ map of_nat s
           \<and> data_entry_from_bytes (bytes e) = Inr (Some e)
           \<and> bindE (serialize_data [e]) data_entries_from_bytes = Inr [Some e])"
    and b: "\<forall>s. length s = 141 \<and> (\<forall>c \<in> set s. c < 256) \<longrightarrow>
         DataEntry_init (PyStr s) short_text = Inl ValueError"
    by blast+
  have h3: "list_all (\<lambda>c. c < 256) (replicate 140 (97::nat))"
    "list_all (\<lambda>c. c < 256) (replicate 141 (97::nat))"
    by (simp_all add: list_all_iff)
  from a [rule_format, OF h1] b [rule_format, OF h2] h1 h2 h3 show ?thesis by blast
qed

text \<open>
  C9. For every data value, the type check accepts the tags Account, Boolean and Balance,
  and the construction then raises \<open>AttributeError\<close> when it assembles \<open>self.bytes\<close>,
  because no branch has set the payload. A construction that succeeds has one of the eight
  tags PublicKey, Address, Amount, Int32, ShortText, ContractAccount, TokenId, Timestamp.
\<close>

theorem unhandled_tags_never_construct:
  "(\<forall>d. check_data_type d account = Inr True \<and> DataEntry_init d account = Inl AttributeError)
   \<and> (\<forall>d. check_data_type d boolean = Inr True \<and> DataEntry_init d boolean = Inl AttributeError)
   \<and> (\<forall>d. check_data_type d balance = Inr True \<and> DataEntry_init d balance = Inl AttributeError)
   \<and> (\<forall>d dt e. DataEntry_init d dt = Inr e \<longrightarrow>
          dt \<in> {public_key, address, amount, int32, short_text, contract_account, token_id,
                timestamp})"
proof -
  have a: "account \<notin> {public_key, address, amount, int32, short_text, contract_account,
      token_id, timestamp}"
    and b: "boolean \<notin> {public_key, address, amount, int32, short_text, contract_account,
      token_id, timestamp}"
    and c: "balance \<notin> {public_key, address, amount, int32, short_text, contract_account,
      token_id, timestamp}"
    by (simp_all add: Type_defs)
  have "check_data_type d account = Inr True" "check_data_type d boolean = Inr True"
    "check_data_type d balance = Inr True" for d
    by (simp_all add: check_data_type_def Type_defs)
  then show ?thesis
    using DataEntry_init_unhandled [OF a] DataEntry_init_unhandled [OF b]
      DataEntry_init_unhandled [OF c] DataEntry_init_tag by blast
qed

theorem unhandled_tags_never_construct_witness:
  "DataEntry_init (PyInt 7) timestamp =
     Inr \<lparr>data = PyInt 7, data_type = ''timestamp'', data_bytes = [0, 0, 0, 0, 0, 0, 0, 7],
          bytes = [9, 0, 0, 0, 0, 0, 0, 0, 7]\<rparr>
   \<and> timestamp \<in> {public_key, address, amount, int32, short_text, contract_account, token_id,
                timestamp}"
proof -
  have h: "DataEntry_init (PyInt 7) timestamp =
     Inr \<lparr>data = PyInt 7, data_type = ''timestamp'', data_bytes = [0, 0, 0, 0, 0, 0, 0, 7],
          bytes = [9, 0, 0, 0, 0, 0, 0, 0, 7]\<rparr>"
    by (subst DataEntry_init_timestamp) (simp add: struct_pack_def timestamp_def be_bytes_numeral)
  from unhandled_tags_never_construct have "\<forall>d dt e. DataEntry_init d dt = Inr e \<longrightarrow>
          dt \<in> {public_key, address, amount, int32, short_text, contract_account, token_id,
                timestamp}" by blast
  from this [rule_format, OF h] h show ?thesis by simp
qed

section \<open>Decoding a list of data entries\<close>

text \<open>
  C4. On the input \<open>00 01 0c\<close> (one declared entry, whose tag byte 12 no branch handles)
  \<open>parse_data_entry_array_size\<close> returns \<open>None\<close> and the list decoding stops with the
  \<open>TypeError\<close> of unpacking \<open>None\<close>: the decoding is aborted, but no error that names
  the unknown tag is reported.
\<close>

theorem unknown_tag_raises_TypeError:
  "parse_data_entry_array_size [0, 1, 12] 2 = Inr None
   \<and> data_entries_from_bytes [0, 1, 12] = Inl TypeError"
  by (simp add: data_entries_from_bytes_def parse_data_entry_array_size_def slice_def
      struct_unpack_def be_value_def Type_defs)






section \<open>The opcode-list frame of a function descriptor\<close>

text \<open>
  C6. Whenever \<open>list_opc_gen\<close> produces a frame, for the tables of the catalog as for
  any other, the 2-byte length at the head of the frame is the sum over the instructions
  \<open>zip(ids, index_input)\<close> of \<open>2 + len(opcode) + len(operandIndexes)\<close>, plus 2, and this
  is the number of bytes that follow the length field (the 2-byte count and the
  length-prefixed instructions); the count field holds \<open>len(ids)\<close>. Inside a descriptor
  built by \<open>func_gen\<close> the declared length is the number of bytes from the end of the
  length field to the end of the descriptor.
\<close>

theorem opcode_frame_declared_length:
  assumes "list_opc_gen ids index_input = Inr frame"
  shows "unpack_H (slice frame 0 2) =
           Inr ((\<Sum>x\<leftarrow>zip ids index_input. 2 + length (fst x) + length (snd x)) + 2)
         \<and> (\<Sum>x\<leftarrow>zip ids index_input. 2 + length (fst x) + length (snd x)) + 2
             = length (drop 2 frame)
         \<and> unpack_H (slice frame 2 4) = Inr (length ids)
         \<and> (\<forall>fun_idx fun_type proto_type.
               unpack_H (slice (func_gen fun_idx fun_type proto_type frame)
                           (length (fun_idx @ fun_type @ proto_type))
                           (length (fun_idx @ fun_type @ proto_type) + 2))
               = Inr (length (func_gen fun_idx fun_type proto_type frame)
                        - (length (fun_idx @ fun_type @ proto_type) + 2)))"
proof -
  let ?S = "sum_list (opc_sizes (zip ids index_input))"
  define n where "n = ?S + 2"
  from list_opc_gen_Inr [OF assms] obtain r where r: "opc_frames (zip ids index_input) = Inr r"
    and b: "n < 65536" "length ids < 65536"
    and f: "frame = be_bytes 2 n @ be_bytes 2 (length ids) @ r"
    unfolding n_def by blast
  have S: "(\<Sum>x\<leftarrow>zip ids index_input. 2 + length (fst x) + length (snd x)) = ?S"
    by (simp add: opc_sizes_def add.commute add.left_commute)
  from b have "n < 256 ^ 2" "length ids < 256 ^ 2" by simp_all
  then have bv: "be_value (be_bytes 2 n) = n"
    "be_value (be_bytes 2 (length ids)) = length ids"
    using be_value_be_bytes by blast+
  have l: "length r = ?S" using r by (rule opc_frames_length)
  have 1: "unpack_H (slice frame 0 2) = Inr n"
    by (simp add: f slice_own struct_unpack_def bv del: be_bytes.simps)
  have 2: "n = length (drop 2 frame)"
    by (simp add: f l n_def)
  have 3: "unpack_H (slice frame 2 4) = Inr (length ids)"
    by (simp add: f slice_own struct_unpack_def bv del: be_bytes.simps)
  have 4: "unpack_H (slice (func_gen fun_idx fun_type proto_type frame)
                           (length (fun_idx @ fun_type @ proto_type))
                           (length (fun_idx @ fun_type @ proto_type) + 2))
               = Inr (length (func_gen fun_idx fun_type proto_type frame)
                        - (length (fun_idx @ fun_type @ proto_type) + 2))"
    for fun_idx fun_type proto_type
  proof -
    have "slice (func_gen fun_idx fun_type proto_type frame)
                           (length (fun_idx @ fun_type @ proto_type))
                           (length (fun_idx @ fun_type @ proto_type) + 2) = slice frame 0 2"
      by (simp add: func_gen_def slice_def)
    moreover have "length (func_gen fun_idx fun_type proto_type frame)
                        - (length (fun_idx @ fun_type @ proto_type) + 2) = n"
      by (simp add: func_gen_def f l n_def)
    ultimately show ?thesis using 1 by simp
  qed
  from 1 2 3 4 show ?thesis unfolding S n_def by blast
qed

theorem opcode_frame_declared_length_witness:
  "list_opc_gen (supersede_opc (\<lambda>k. [1])) (supersede_opc_index (\<lambda>k. [1])) =
     Inr [0, 19, 0, 3, 0, 4, 1, 1, 1, 1, 0, 3, 1, 1, 1, 0, 4, 1, 1, 1, 1]
   \<and> unpack_H (slice [0, 19, 0, 3, 0, 4, 1, 1, 1, 1, 0, 3, 1, 1, 1, 0, 4, 1, 1, 1, 1] 0 2)
       = Inr 19
   \<and> length (drop 2 [0, 19, 0, 3, 0, 4, 1, 1, 1, 1, 0, 3, 1, 1, 1, 0, 4, 1, 1, 1, 1 :: 8 word])
       = 19"
proof -
  have h: "list_opc_gen (supersede_opc (\<lambda>k. [1])) (supersede_opc_index (\<lambda>k. [1])) =
     Inr [0, 19, 0, 3, 0, 4, 1, 1, 1, 1, 0, 3, 1, 1, 1, 0, 4, 1, 1, 1, 1]"
    by (simp add: list_opc_gen_def catalog_defs opc_sizes_def struct_pack_def be_bytes_numeral)
  from opcode_frame_declared_length [OF h] h show ?thesis
    by (simp add: catalog_defs)
qed

section \<open>The contract envelope\<close>



text \<open>
  C3. The bytes of a contract of language version 1 are the header followed by the framed
  trigger, descriptor and state-variable sections and the textual list, and do not depend
  on the state map: there is no state-map frame. For any other language version the framed
  state map stands between the state-variable frame and the textual list, and for an empty
  state map this frame is \<open>00 02 00 00\<close>, a blob-wrapped zero count.
\<close>

theorem contract_bytes_version_gating:
  "(Inr (language_version c) = pack_I (PyInt 1) \<longrightarrow>
      (\<forall>b. Contract_bytes c = Inr b \<longrightarrow>
         (\<exists>t d s x. bindE (serialize_arrays (trigger c)) serialize_array = Inr t
            \<and> bindE (serialize_arrays (descriptor c)) serialize_array = Inr d
            \<and> bindE (serialize_arrays (state_variable c)) serialize_array = Inr s
            \<and> serialize_arrays (textual c) = Inr x
            \<and> b = language_code c @ language_version c @ t @ d @ s @ x))
      \<and> (\<forall>sm. Contract_bytes (c\<lparr>state_map := sm\<rparr>) = Contract_bytes c))
   \<and> (Inr (language_version c) \<noteq> pack_I (PyInt 1) \<longrightarrow>
      (\<forall>b. Contract_bytes c = Inr b \<longrightarrow>
         (\<exists>t d s m x. bindE (serialize_arrays (trigger c)) serialize_array = Inr t
            \<and> bindE (serialize_arrays (descriptor c)) serialize_array = Inr d
            \<and> bindE (serialize_arrays (state_variable c)) serialize_array = Inr s
            \<and> bindE (serialize_arrays (state_map c)) serialize_array = Inr m
            \<and> serialize_arrays (textual c) = Inr x
            \<and> b = language_code c @ language_version c @ t @ d @ s @ m @ x
            \<and> (state_map c = [] \<longrightarrow> m = [0, 2, 0, 0]))))"
proof (intro conjI impI allI)
  fix b
  assume "Inr (language_version c) = pack_I (PyInt 1)" "Contract_bytes c = Inr b"
  then show "\<exists>t d s x. bindE (serialize_arrays (trigger c)) serialize_array = Inr t
            \<and> bindE (serialize_arrays (descriptor c)) serialize_array = Inr d
            \<and> bindE (serialize_arrays (state_variable c)) serialize_array = Inr s
            \<and> serialize_arrays (textual c) = Inr x
            \<and> b = language_code c @ language_version c @ t @ d @ s @ x"
    unfolding Contract_bytes_def by (auto simp: bindE_Inr_iff)
next
  fix sm
  assume "Inr (language_version c) = pack_I (PyInt 1)"
  then show "Contract_bytes (c\<lparr>state_map := sm\<rparr>) = Contract_bytes c"
    by (simp add: Contract_bytes_def)
next
  fix b
  assume "Inr (language_version c) \<noteq> pack_I (PyInt 1)" "Contract_bytes c = Inr b"
  then obtain t d s m x where
    1: "bindE (serialize_arrays (trigger c)) serialize_array = Inr t"
      "bindE (serialize_arrays (descriptor c)) serialize_array = Inr d"
      "bindE (serialize_arrays (state_variable c)) serialize_array = Inr s"
      "bindE (serialize_arrays (state_map c)) serialize_array = Inr m"
      "serialize_arrays (textual c) = Inr x"
      "b = language_code c @ language_version c @ t @ d @ s @ m @ x"
    unfolding Contract_bytes_def by (auto simp: bindE_Inr_iff)
  have "m = [0, 2, 0, 0]" if "state_map c = []"
    using 1(4) that by (simp add: serialize_arrays_eq serialize_array_eq be_bytes_numeral)
  with 1 show "\<exists>t d s m x. bindE (serialize_arrays (trigger c)) serialize_array = Inr t
            \<and> bindE (serialize_arrays (descriptor c)) serialize_array = Inr d
            \<and> bindE (serialize_arrays (state_variable c)) serialize_array = Inr s
            \<and> bindE (serialize_arrays (state_map c)) serialize_array = Inr m
            \<and> serialize_arrays (textual c) = Inr x
            \<and> b = language_code c @ language_version c @ t @ d @ s @ m @ x
            \<and> (state_map c = [] \<longrightarrow> m = [0, 2, 0, 0])"
    by blast
qed

theorem contract_bytes_version_gating_witness:
  "Inr (language_version \<lparr>language_code = [118, 100, 100, 115], language_version = [0, 0, 0, 1],
       trigger = [[0, 1, 7]], descriptor = [[0, 0]], state_variable = [], state_map = [],
       textual = [[0, 2, 1, 2]]\<rparr>) = pack_I (PyInt 1)
   \<and> Contract_bytes \<lparr>language_code = [118, 100, 100, 115], language_version = [0, 0, 0, 1],
       trigger = [[0, 1, 7]], descriptor = [[0, 0]], state_variable = [],
       state_map = [[0, 1, 9]], textual = [[0, 2, 1, 2]]\<rparr>
     = Inr [118, 100, 100, 115, 0, 0, 0, 1, 0, 5, 0, 1, 0, 1, 7, 0, 4, 0, 1, 0, 0, 0, 2, 0, 0,
            0, 1, 0, 2, 1, 2]
   \<and> Inr (language_version \<lparr>language_code = [118, 100, 100, 115],
       language_version = [0, 0, 0, 2], trigger = [[0, 1, 7]], descriptor = [[0, 0]],
       state_variable = [], state_map = [], textual = [[0, 2, 1, 2]]\<rparr>) \<noteq> pack_I (PyInt 1)
   \<and> Contract_bytes \<lparr>language_code = [118, 100, 100, 115], language_version = [0, 0, 0, 2],
       trigger = [[0, 1, 7]], descriptor = [[0, 0]], state_variable = [], state_map = [],
       textual = [[0, 2, 1, 2]]\<rparr>
     = Inr [118, 100, 100, 115, 0, 0, 0, 2, 0, 5, 0, 1, 0, 1, 7, 0, 4, 0, 1, 0, 0, 0, 2, 0, 0,
            0, 2, 0, 0, 0, 1, 0, 2, 1, 2]
   \<and> bindE (serialize_arrays []) serialize_array = Inr [0, 2, 0, 0]"
proof -
  let ?c1 = "\<lparr>language_code = [118, 100, 100, 115], language_version = [0, 0, 0, 1],
       trigger = [[0, 1, 7]], descriptor = [[0, 0]], state_variable = [], state_map = [],
       textual = [[0, 2, 1, 2]]\<rparr>"
  let ?c2 = "\<lparr>language_code = [118, 100, 100, 115], language_version = [0, 0, 0, 2],
       trigger = [[0, 1, 7]], descriptor = [[0, 0]], state_variable = [], state_map = [],
       textual = [[0, 2, 1, 2]]\<rparr>"
  have h1: "Inr (language_version ?c1) = pack_I (PyInt 1)" by (simp add: pack_I_1)
  have h2: "Inr (language_version ?c2) \<noteq> pack_I (PyInt 1)" by (simp add: pack_I_1)
  have b1: "Contract_bytes ?c1 =
      Inr [118, 100, 100, 115, 0, 0, 0, 1, 0, 5, 0, 1, 0, 1, 7, 0, 4, 0, 1, 0, 0, 0, 2, 0, 0,
            0, 1, 0, 2, 1, 2]"
    by (simp add: Contract_bytes_def pack_I_1 serialize_arrays_eq serialize_array_eq
        be_bytes_numeral)
  have b2: "Contract_bytes ?c2 =
      Inr [118, 100, 100, 115, 0, 0, 0, 2, 0, 5, 0, 1, 0, 1, 7, 0, 4, 0, 1, 0, 0, 0, 2, 0, 0,
            0, 2, 0, 0, 0, 1, 0, 2, 1, 2]"
    by (simp add: Contract_bytes_def pack_I_1 serialize_arrays_eq serialize_array_eq
        be_bytes_numeral)
  from contract_bytes_version_gating [of ?c1] h1
  have "Contract_bytes (?c1\<lparr>state_map := [[0, 1, 9]]\<rparr>) = Contract_bytes ?c1" by blast
  with b1 have g1: "Contract_bytes \<lparr>language_code = [118, 100, 100, 115],
       language_version = [0, 0, 0, 1],
       trigger = [[0, 1, 7]], descriptor = [[0, 0]], state_variable = [],
       state_map = [[0, 1, 9]], textual = [[0, 2, 1, 2]]\<rparr>
     = Inr [118, 100, 100, 115, 0, 0, 0, 1, 0, 5, 0, 1, 0, 1, 7, 0, 4, 0, 1, 0, 0, 0, 2, 0, 0,
            0, 1, 0, 2, 1, 2]" by simp
  from contract_bytes_version_gating [of ?c2] h2 b2
  have "\<exists>t d s m x. bindE (serialize_arrays (trigger ?c2)) serialize_array = Inr t
            \<and> bindE (serialize_arrays (descriptor ?c2)) serialize_array = Inr d
            \<and> bindE (serialize_arrays (state_variable ?c2)) serialize_array = Inr s
            \<and> bindE (serialize_arrays (state_map ?c2)) serialize_array = Inr m
            \<and> serialize_arrays (textual ?c2) = Inr x
            \<and> [118, 100, 100, 115, 0, 0, 0, 2, 0, 5, 0, 1, 0, 1, 7, 0, 4, 0, 1, 0, 0, 0, 2, 0, 0,
            0, 2, 0, 0, 0, 1, 0, 2, 1, 2]
               = language_code ?c2 @ language_version ?c2 @ t @ d @ s @ m @ x
            \<and> (state_map ?c2 = [] \<longrightarrow> m = [0, 2, 0, 0])"
    by blast
  then have g2: "bindE (serialize_arrays []) serialize_array = Inr [0, 2, 0, 0]"
    by auto
  from h1 g1 h2 b2 g2 show ?thesis by blast
qed


end
